theory Spec2Isabelle
  imports Complex_Main
begin

section \<open>Data model of the simulator (src/app/page.tsx)\<close>

text \<open>
  The component \<open>NetworkProtocolSimulator\<close> keeps its state in React \<open>useState\<close> cells and
  advances it from click handlers and from \<open>setTimeout\<close> callbacks. Sequence numbers, ids and
  timestamps are JavaScript numbers holding integers; they are modelled as \<open>int\<close>, so that
  \<open>expectedSequenceNumber - 1\<close> is \<open>-1\<close> when the counter is \<open>0\<close>, as in the source.
\<close>

datatype protocol = Simple | StopAndWait | GoBackN | SelectiveRepeat

datatype packet_status =
  Sending | Sent | Acknowledged | Lost | Retransmitting | Received | Buffered | Discarded

datatype ack_status = AckSending | AckReceived

datatype ack_type = ACK | NACK

text \<open>
  Interface \<open>Packet\<close>. The optional field \<open>isRetransmission\<close> is \<open>None\<close> where the source
  leaves it out (\<open>undefined\<close>); the source only ever tests its truthiness.
\<close>

record packet =
  packet_id :: int
  sequenceNumber :: int
  data :: string
  status :: packet_status
  timestamp :: int
  isRetransmission :: "bool option"

definition truthy :: "bool option \<Rightarrow> bool" where
  "truthy b = (b = Some True)"

text \<open>Interface \<open>AckPacket\<close> (its fields carry the prefix \<open>ack_\<close>).\<close>

record ackPacket =
  ack_id :: int
  ack_sequenceNumber :: int
  ack_status :: ack_status
  ack_timestamp :: int
  ack_type :: ack_type

text \<open>
  The values of the \<open>useState\<close> cells as one render of the component sees them. Every handler
  and every timer callback is a closure over one such render.
\<close>

record render =
  protocol :: protocol
  packets :: "packet list"
  acks :: "ackPacket list"
  isSimulating :: bool
  windowSize :: int
  nextSequenceNumber :: int
  expectedSequenceNumber :: int
  senderWindow :: "int list"
  receiverBuffer :: "packet list"
  waitingForAck :: bool
  showDiagram :: bool

text \<open>
  The callbacks handed to \<open>setTimeout\<close>. Each constructor stands for one arrow function of
  the source and carries what that function captured: the render \<open>c\<close> whose handler created
  it, and the local constants (\<open>newPacket.id\<close>, \<open>newAck.id\<close>, \<open>sequenceNumber\<close>, \<open>ackType\<close>).

  \<^item> \<open>PacketArrives\<close>: the callback of \<open>sendPacket\<close> (lines 101-106);
  \<^item> \<open>RetransmissionArrives\<close>: the callback of \<open>retransmitPacket\<close> (lines 122-129);
  \<^item> \<open>RetransmitTimer\<close>: \<open>() => retransmitPacket(seq)\<close> (lines 135-137, 148-150, 154);
  \<^item> \<open>GoBackTimer\<close>: \<open>() => retransmitFromSequence(Math.min(...senderWindow))\<close>
    (lines 152, 270);
  \<^item> \<open>AckTimer\<close>: the callback of \<open>sendAck\<close> (lines 223-243);
  \<^item> \<open>NackTimer\<close>: the callback of \<open>sendNack\<close> (lines 258-274).
\<close>

datatype task =
  PacketArrives int
  | RetransmissionArrives render int
  | RetransmitTimer render int
  | GoBackTimer render
  | AckTimer render int int ack_type
  | NackTimer render int int

text \<open>
  The running page: the current values of the state cells, the clock read by \<open>Date.now()\<close>
  (milliseconds) and the pending timers with the time each one is due, in the order in which
  they were scheduled.
\<close>

record world =
  ui :: render
  now :: int
  timers :: "(int \<times> task) list"

section \<open>State setters and timers\<close>

text \<open>
  \<open>setX(prev => f(prev))\<close> applies \<open>f\<close> to the current value of the cell, whatever render the
  caller closed over; \<open>setX(v)\<close> is \<open>setX (\<lambda>_. v)\<close>.
\<close>

definition setProtocol :: "(protocol \<Rightarrow> protocol) \<Rightarrow> world \<Rightarrow> world" where
  "setProtocol f w = w\<lparr>ui := (ui w)\<lparr>protocol := f (protocol (ui w))\<rparr>\<rparr>"

definition setPackets :: "(packet list \<Rightarrow> packet list) \<Rightarrow> world \<Rightarrow> world" where
  "setPackets f w = w\<lparr>ui := (ui w)\<lparr>packets := f (packets (ui w))\<rparr>\<rparr>"

definition setAcks :: "(ackPacket list \<Rightarrow> ackPacket list) \<Rightarrow> world \<Rightarrow> world" where
  "setAcks f w = w\<lparr>ui := (ui w)\<lparr>acks := f (acks (ui w))\<rparr>\<rparr>"

definition setIsSimulating :: "(bool \<Rightarrow> bool) \<Rightarrow> world \<Rightarrow> world" where
  "setIsSimulating f w = w\<lparr>ui := (ui w)\<lparr>isSimulating := f (isSimulating (ui w))\<rparr>\<rparr>"

definition setWindowSize :: "(int \<Rightarrow> int) \<Rightarrow> world \<Rightarrow> world" where
  "setWindowSize f w = w\<lparr>ui := (ui w)\<lparr>windowSize := f (windowSize (ui w))\<rparr>\<rparr>"

definition setNextSequenceNumber :: "(int \<Rightarrow> int) \<Rightarrow> world \<Rightarrow> world" where
  "setNextSequenceNumber f w =
     w\<lparr>ui := (ui w)\<lparr>nextSequenceNumber := f (nextSequenceNumber (ui w))\<rparr>\<rparr>"

definition setExpectedSequenceNumber :: "(int \<Rightarrow> int) \<Rightarrow> world \<Rightarrow> world" where
  "setExpectedSequenceNumber f w =
     w\<lparr>ui := (ui w)\<lparr>expectedSequenceNumber := f (expectedSequenceNumber (ui w))\<rparr>\<rparr>"

definition setSenderWindow :: "(int list \<Rightarrow> int list) \<Rightarrow> world \<Rightarrow> world" where
  "setSenderWindow f w = w\<lparr>ui := (ui w)\<lparr>senderWindow := f (senderWindow (ui w))\<rparr>\<rparr>"

definition setReceiverBuffer :: "(packet list \<Rightarrow> packet list) \<Rightarrow> world \<Rightarrow> world" where
  "setReceiverBuffer f w = w\<lparr>ui := (ui w)\<lparr>receiverBuffer := f (receiverBuffer (ui w))\<rparr>\<rparr>"

definition setWaitingForAck :: "(bool \<Rightarrow> bool) \<Rightarrow> world \<Rightarrow> world" where
  "setWaitingForAck f w = w\<lparr>ui := (ui w)\<lparr>waitingForAck := f (waitingForAck (ui w))\<rparr>\<rparr>"

definition setShowDiagram :: "(bool \<Rightarrow> bool) \<Rightarrow> world \<Rightarrow> world" where
  "setShowDiagram f w = w\<lparr>ui := (ui w)\<lparr>showDiagram := f (showDiagram (ui w))\<rparr>\<rparr>"

text \<open>\<open>setTimeout(k, delay)\<close>: the callback becomes due \<open>delay\<close> milliseconds from now.\<close>

definition setTimeout :: "task \<Rightarrow> int \<Rightarrow> world \<Rightarrow> world" where
  "setTimeout k delay w = w\<lparr>timers := timers w @ [(now w + delay, k)]\<rparr>"

section \<open>JavaScript library functions used by the source\<close>

text \<open>\<open>Math.min(...xs)\<close> is \<open>Infinity\<close> on the empty list.\<close>

datatype bound = Finite int | Infinity

fun math_min :: "int list \<Rightarrow> bound" where
  "math_min [] = Infinity"
| "math_min (x # xs) = (case math_min xs of Infinity \<Rightarrow> Finite x | Finite m \<Rightarrow> Finite (min x m))"

text \<open>The comparison \<open>seq >= fromSequence\<close> where \<open>fromSequence\<close> may be \<open>Infinity\<close>.\<close>

fun ge_bound :: "int \<Rightarrow> bound \<Rightarrow> bool" where
  "ge_bound x Infinity = False"
| "ge_bound x (Finite b) = (b \<le> x)"

text \<open>The template literal \<open>`Frame ${n}`\<close>: the decimal digits of an integer.\<close>

definition digit :: "nat \<Rightarrow> char" where
  "digit d = ''0123456789'' ! d"

fun string_of_nat :: "nat \<Rightarrow> string" where
  "string_of_nat n =
     (if n < 10 then [digit n] else string_of_nat (n div 10) @ [digit (n mod 10)])"

declare string_of_nat.simps [simp del]

definition string_of_int :: "int \<Rightarrow> string" where
  "string_of_int i = (if i < 0 then CHR ''-'' # string_of_nat (nat (- i)) else string_of_nat (nat i))"

section \<open>The handlers\<close>

text \<open>
  Every handler takes the render \<open>c\<close> it closed over (what it reads as \<open>packets\<close>,
  \<open>protocol\<close>, \<open>senderWindow\<close>, ...) and the running page \<open>w\<close> that its setters update.
\<close>

text \<open>
  \<open>resetSimulation\<close> (lines 50-60) sets nine cells. It leaves \<open>protocol\<close> and
  \<open>windowSize\<close> alone, and it cancels no timer: the source never calls \<open>clearTimeout\<close>, so
  a callback scheduled before a reset still fires after it, with the render it captured.
\<close>

definition resetSimulation :: "world \<Rightarrow> world" where
  "resetSimulation w =
     (setShowDiagram (\<lambda>_. False)
       (setIsSimulating (\<lambda>_. False)
         (setWaitingForAck (\<lambda>_. False)
           (setReceiverBuffer (\<lambda>_. [])
             (setSenderWindow (\<lambda>_. [])
               (setExpectedSequenceNumber (\<lambda>_. 0)
                 (setNextSequenceNumber (\<lambda>_. 0)
                   (setAcks (\<lambda>_. [])
                     (setPackets (\<lambda>_. []) w)))))))))"

definition canSendPacket :: "render \<Rightarrow> bool" where
  "canSendPacket c =
     (if isSimulating c then False
      else case protocol c of
        Simple \<Rightarrow> True
      | StopAndWait \<Rightarrow> \<not> waitingForAck c
      | _ \<Rightarrow>
         (if int (length (senderWindow c)) \<ge> windowSize c then False
          else if length (senderWindow c) = 0 then True
          else (case math_min (senderWindow c) of
                  Infinity \<Rightarrow> False
                | Finite base \<Rightarrow>
                    (let windowEnd = base + windowSize c - 1
                     in nextSequenceNumber c \<ge> base \<and> nextSequenceNumber c \<le> windowEnd))))"

definition sendPacket :: "render \<Rightarrow> world \<Rightarrow> world" where
  "sendPacket c w =
     (if \<not> canSendPacket c then w
      else
        let w1 = setIsSimulating (\<lambda>_. True) w;
            newPacket = \<lparr>packet_id = now w, sequenceNumber = nextSequenceNumber c,
                         data = ''Frame '' @ string_of_int (nextSequenceNumber c),
                         status = Sending, timestamp = now w, isRetransmission = None\<rparr>;
            w2 = setPackets (\<lambda>prev. prev @ [newPacket]) w1;
            w3 = (if protocol c = GoBackN \<or> protocol c = SelectiveRepeat
                  then setSenderWindow (\<lambda>prev. prev @ [nextSequenceNumber c]) w2 else w2);
            w4 = (if protocol c = StopAndWait then setWaitingForAck (\<lambda>_. True) w3 else w3);
            w5 = setTimeout (PacketArrives (packet_id newPacket)) 1000 w4
        in setNextSequenceNumber (\<lambda>prev. prev + 1) w5)"

definition retransmitPacket :: "render \<Rightarrow> int \<Rightarrow> world \<Rightarrow> world" where
  "retransmitPacket c seq w =
     (case find (\<lambda>p. sequenceNumber p = seq) (packets c) of
        None \<Rightarrow> w
      | Some originalPacket \<Rightarrow>
          let retransmittedPacket =
                \<lparr>packet_id = now w, sequenceNumber = seq, data = data originalPacket,
                 status = Retransmitting, timestamp = now w, isRetransmission = Some True\<rparr>;
              w1 = setPackets (\<lambda>prev. prev @ [retransmittedPacket]) w
          in setTimeout (RetransmissionArrives c (packet_id retransmittedPacket)) 1000 w1)"

text \<open>
  \<open>packetsToRetransmit.forEach((seq, index) => setTimeout(..., index * 500))\<close>, from
  index \<open>i\<close> on.
\<close>

fun forEach_retransmit :: "render \<Rightarrow> nat \<Rightarrow> int list \<Rightarrow> world \<Rightarrow> world" where
  "forEach_retransmit c i [] w = w"
| "forEach_retransmit c i (seq # rest) w =
     forEach_retransmit c (Suc i) rest (setTimeout (RetransmitTimer c seq) (int i * 500) w)"

definition retransmitFromSequence :: "render \<Rightarrow> bound \<Rightarrow> world \<Rightarrow> world" where
  "retransmitFromSequence c fromSequence w =
     (let packetsToRetransmit = filter (\<lambda>seq. ge_bound seq fromSequence) (senderWindow c)
      in forEach_retransmit c 0 packetsToRetransmit w)"

definition losePacket :: "render \<Rightarrow> int \<Rightarrow> world \<Rightarrow> world" where
  "losePacket c packetId w =
     (let w1 = setPackets (map (\<lambda>p. if packet_id p = packetId then p\<lparr>status := Lost\<rparr> else p)) w
      in case find (\<lambda>p. packet_id p = packetId) (packets c) of
           None \<Rightarrow> w1
         | Some pkt \<Rightarrow>
             if protocol c = StopAndWait then setTimeout (RetransmitTimer c (sequenceNumber pkt)) 500 w1
             else if protocol c = GoBackN then setTimeout (GoBackTimer c) 500 w1
             else if protocol c = SelectiveRepeat
               then setTimeout (RetransmitTimer c (sequenceNumber pkt)) 500 w1
             else w1)"

text \<open>
  The callback of \<open>receiverBuffer.filter\<close> in \<open>sendAck\<close> (lines 200-206): one pass over the
  buffer in its stored order, with the local variable \<open>nextExpected\<close> threaded through. The
  result is the final \<open>nextExpected\<close> and \<open>newBuffer\<close>.
\<close>

fun filter_buffer :: "int \<Rightarrow> packet list \<Rightarrow> int \<times> packet list" where
  "filter_buffer nextExpected [] = (nextExpected, [])"
| "filter_buffer nextExpected (p # ps) =
     (if sequenceNumber p = nextExpected then filter_buffer (nextExpected + 1) ps
      else (let (n, kept) = filter_buffer nextExpected ps in (n, p # kept)))"

definition sendAck :: "render \<Rightarrow> int \<Rightarrow> world \<Rightarrow> world" where
  "sendAck c seq w =
     (case find (\<lambda>p. sequenceNumber p = seq \<and> status p = Received) (packets c) of
        None \<Rightarrow> w
      | Some pkt \<Rightarrow>
          let (ackType, w1) =
                (case protocol c of
                   Simple \<Rightarrow> (ACK, w)
                 | StopAndWait \<Rightarrow>
                     if seq = expectedSequenceNumber c
                     then (ACK, setExpectedSequenceNumber (\<lambda>prev. prev + 1) w)
                     else (NACK, w)
                 | GoBackN \<Rightarrow>
                     if seq \<ge> expectedSequenceNumber c then
                       if seq = expectedSequenceNumber c then
                         (ACK, setSenderWindow (filter (\<lambda>q. q > expectedSequenceNumber c - 1))
                                 (setExpectedSequenceNumber (\<lambda>prev. prev + 1) w))
                       else (ACK, setSenderWindow (filter (\<lambda>q. q \<noteq> seq)) w)
                     else (ACK, w)
                 | SelectiveRepeat \<Rightarrow>
                     if seq \<noteq> expectedSequenceNumber c then
                       (ACK, setPackets
                               (map (\<lambda>p. if sequenceNumber p = seq then p\<lparr>status := Buffered\<rparr> else p))
                               (setReceiverBuffer (\<lambda>prev. prev @ [pkt]) w))
                     else
                       let (nextExpected, newBuffer) =
                             filter_buffer (expectedSequenceNumber c + 1) (receiverBuffer c)
                       in (ACK, setExpectedSequenceNumber (\<lambda>_. nextExpected)
                                  (setReceiverBuffer (\<lambda>_. newBuffer)
                                    (setExpectedSequenceNumber (\<lambda>prev. prev + 1) w))));
              newAck = \<lparr>ack_id = now w, ack_sequenceNumber = seq, ack_status = AckSending,
                        ack_timestamp = now w, ack_type = ackType\<rparr>;
              w2 = (if protocol c \<noteq> StopAndWait then setAcks (\<lambda>prev. prev @ [newAck]) w1 else w1)
          in setTimeout (AckTimer c (ack_id newAck) seq ackType) 500 w2)"

definition sendNack :: "render \<Rightarrow> int \<Rightarrow> world \<Rightarrow> world" where
  "sendNack c seq w =
     (let newAck = \<lparr>ack_id = now w, ack_sequenceNumber = seq, ack_status = AckSending,
                    ack_timestamp = now w, ack_type = NACK\<rparr>;
          w1 = (if protocol c \<noteq> StopAndWait then setAcks (\<lambda>prev. prev @ [newAck]) w else w)
      in setTimeout (NackTimer c (ack_id newAck) seq) 500 w1)"

section \<open>The timer callbacks\<close>

definition ackTimeout :: "render \<Rightarrow> int \<Rightarrow> int \<Rightarrow> ack_type \<Rightarrow> world \<Rightarrow> world" where
  "ackTimeout c newAckId seq ackType w =
     (let w1 = (if protocol c \<noteq> StopAndWait
                then setAcks (map (\<lambda>a. if ack_id a = newAckId then a\<lparr>ack_status := AckReceived\<rparr> else a)) w
                else w)
      in if ackType = ACK then
           let w2 = setPackets
                      (map (\<lambda>p. if sequenceNumber p = seq then p\<lparr>status := Acknowledged\<rparr> else p)) w1;
               w3 = (if protocol c = GoBackN then setSenderWindow (filter (\<lambda>q. q \<noteq> seq)) w2
                     else if protocol c = SelectiveRepeat
                       then setSenderWindow (filter (\<lambda>q. q \<noteq> seq)) w2
                     else w2)
           in if protocol c = StopAndWait then setWaitingForAck (\<lambda>_. False) w3 else w3
         else w1)"

definition nackTimeout :: "render \<Rightarrow> int \<Rightarrow> int \<Rightarrow> world \<Rightarrow> world" where
  "nackTimeout c newAckId seq w =
     (let w1 = (if protocol c \<noteq> StopAndWait
                then setAcks (map (\<lambda>a. if ack_id a = newAckId then a\<lparr>ack_status := AckReceived\<rparr> else a)) w
                else w);
          w2 = setPackets (map (\<lambda>p. if sequenceNumber p = seq then p\<lparr>status := Lost\<rparr> else p)) w1
      in if protocol c = StopAndWait then retransmitPacket c seq w2
         else if protocol c = GoBackN then setTimeout (GoBackTimer c) 500 w2
         else if protocol c = SelectiveRepeat then retransmitPacket c seq w2
         else w2)"

fun run_task :: "task \<Rightarrow> world \<Rightarrow> world" where
  "run_task (PacketArrives newPacketId) w =
     setIsSimulating (\<lambda>_. False)
       (setPackets (map (\<lambda>p. if packet_id p = newPacketId then p\<lparr>status := Received\<rparr> else p)) w)"
| "run_task (RetransmissionArrives c retransmittedId) w =
     (let w1 = setPackets
                 (map (\<lambda>p. if packet_id p = retransmittedId then p\<lparr>status := Received\<rparr> else p)) w
      in if protocol c = StopAndWait then setWaitingForAck (\<lambda>_. False) w1 else w1)"
| "run_task (RetransmitTimer c seq) w = retransmitPacket c seq w"
| "run_task (GoBackTimer c) w = retransmitFromSequence c (math_min (senderWindow c)) w"
| "run_task (AckTimer c newAckId seq ackType) w = ackTimeout c newAckId seq ackType w"
| "run_task (NackTimer c newAckId seq) w = nackTimeout c newAckId seq w"

section \<open>The page as a transition system\<close>

text \<open>
  The commands are the \<open>onClick\<close> and \<open>onValueChange\<close> handlers of the JSX. A handler runs as
  the closure of the current render. The window-size selector offers the items 1 to 8.
\<close>

datatype command =
  SendFrame
  | Acknowledge int
  | NegativeAcknowledge int
  | InjectLoss int
  | Reset
  | ChangeProtocol protocol
  | ChangeWindowSize int
  | Finish
  | CloseDiagram

fun perform :: "command \<Rightarrow> world \<Rightarrow> world" where
  "perform SendFrame w = sendPacket (ui w) w"
| "perform (Acknowledge seq) w = sendAck (ui w) seq w"
| "perform (NegativeAcknowledge seq) w = sendNack (ui w) seq w"
| "perform (InjectLoss packetId) w = losePacket (ui w) packetId w"
| "perform Reset w = resetSimulation w"
| "perform (ChangeProtocol p) w = resetSimulation (setProtocol (\<lambda>_. p) w)"
| "perform (ChangeWindowSize n) w =
     (if 1 \<le> n \<and> n \<le> 8 then resetSimulation (setWindowSize (\<lambda>_. n) w) else w)"
| "perform Finish w = setShowDiagram (\<lambda>_. True) w"
| "perform CloseDiagram w = setShowDiagram (\<lambda>_. False) w"

text \<open>
  Timers fire in the order of their due times, and in scheduling order among equal due
  times; \<open>next_timer\<close> splits the pending list into the timer to fire and the rest.
\<close>

fun next_timer :: "(int \<times> task) list \<Rightarrow> ((int \<times> task) \<times> (int \<times> task) list) option" where
  "next_timer [] = None"
| "next_timer (t # ts) =
     (case next_timer ts of
        None \<Rightarrow> Some (t, [])
      | Some (u, rest) \<Rightarrow> if fst u < fst t then Some (u, t # rest) else Some (t, ts))"

text \<open>
  An event is a command of the user, the firing of the next timer (never before it is due:
  the clock moves to the due time if that is still ahead), or the passing of time. A
  command runs to its end before the next event, as a JavaScript event handler does, and
  React has rendered again before the next command, so that a command always closes over
  the current values of the cells. Time may pass beyond a due time before the timer fires;
  the scenarios below fire every timer when it is due.
\<close>

datatype event = Command command | Fire | Tick nat

definition fire :: "world \<Rightarrow> world" where
  "fire w =
     (case next_timer (timers w) of
        None \<Rightarrow> w
      | Some ((due, k), rest) \<Rightarrow> run_task k (w\<lparr>now := max (now w) due, timers := rest\<rparr>))"

fun step :: "event \<Rightarrow> world \<Rightarrow> world" where
  "step (Command cmd) w = perform cmd w"
| "step Fire w = fire w"
| "step (Tick d) w = w\<lparr>now := now w + int d\<rparr>"

fun run :: "event list \<Rightarrow> world \<Rightarrow> world" where
  "run [] w = w"
| "run (e # es) w = run es (step e w)"

text \<open>The first render: the initial values of the \<open>useState\<close> cells (lines 31-41).\<close>

definition initial :: "int \<Rightarrow> world" where
  "initial t0 =
     \<lparr>ui = \<lparr>protocol = StopAndWait, packets = [], acks = [], isSimulating = False,
            windowSize = 4, nextSequenceNumber = 0, expectedSequenceNumber = 0,
            senderWindow = [], receiverBuffer = [], waitingForAck = False,
            showDiagram = False\<rparr>,
      now = t0, timers = []\<rparr>"

inductive reachable :: "world \<Rightarrow> bool" where
  reachable_initial: "reachable (initial t0)"
| reachable_step: "reachable w \<Longrightarrow> reachable (step e w)"

section \<open>The success-rate statistic (line 684)\<close>

text \<open>
  The JSX computes
  \<open>packets.length > 0 ? Math.round((acknowledged / notRetransmitted) * 100) : 0\<close>
  on JavaScript numbers, that is on IEEE 754 binary64 values. The two counts are array
  lengths; the values that can arise are the non-negative finite doubles, \<open>Infinity\<close> and
  \<open>NaN\<close>.
\<close>

datatype jsnumber = Number rat | PosInfinity | NaN

function bit_length :: "int \<Rightarrow> int" where
  "bit_length n = (if n \<le> 0 then 0 else bit_length (n div 2) + 1)"
  by pat_completeness auto
termination
  by (relation "measure nat") auto

declare bit_length.simps [simp del]

text \<open>The exponent \<open>e\<close> with \<open>2^e \<le> x < 2^(e+1)\<close>, for a positive rational \<open>x\<close>.\<close>

definition binary_exponent :: "rat \<Rightarrow> int" where
  "binary_exponent x =
     (let (n, d) = quotient_of x;
          k = bit_length n - bit_length d
      in if power_int 2 k \<le> x then k else k - 1)"

definition round_half_even :: "rat \<Rightarrow> int" where
  "round_half_even x =
     (let f = \<lfloor>x\<rfloor>; r = x - of_int f
      in if r < 1 / 2 then f else if r > 1 / 2 then f + 1 else if even f then f else f + 1)"

text \<open>
  Rounding of a non-negative real result to binary64, to nearest with ties to even: 53
  significant bits, least exponent \<open>-1022\<close> (below it the spacing stays \<open>2^-1074\<close>),
  overflow to \<open>Infinity\<close>.
\<close>

definition to_double :: "rat \<Rightarrow> jsnumber" where
  "to_double x =
     (if x = 0 then Number 0
      else
        let e = max (binary_exponent x) (- 1022);
            ulp = power_int 2 (e - 52);
            y = of_int (round_half_even (x / ulp)) * ulp
        in if y \<ge> power_int 2 1024 then PosInfinity else Number y)"

text \<open>\<open>a / b\<close> on two array lengths: \<open>0 / 0\<close> is \<open>NaN\<close>, \<open>a / 0\<close> is \<open>Infinity\<close> for \<open>a > 0\<close>.\<close>

definition js_divide :: "nat \<Rightarrow> nat \<Rightarrow> jsnumber" where
  "js_divide a b =
     (if b = 0 then (if a = 0 then NaN else PosInfinity)
      else to_double (of_nat a / of_nat b))"

text \<open>\<open>x * 100\<close> for \<open>x\<close> non-negative, infinite or \<open>NaN\<close>.\<close>

fun js_times_100 :: "jsnumber \<Rightarrow> jsnumber" where
  "js_times_100 (Number x) = to_double (x * 100)"
| "js_times_100 PosInfinity = PosInfinity"
| "js_times_100 NaN = NaN"

text \<open>\<open>Math.round\<close>: the nearest integer, ties towards \<open>+\<infinity>\<close>; \<open>Infinity\<close> and \<open>NaN\<close> pass.\<close>

fun math_round :: "jsnumber \<Rightarrow> jsnumber" where
  "math_round (Number x) = Number (of_int \<lfloor>x + 1 / 2\<rfloor>)"
| "math_round PosInfinity = PosInfinity"
| "math_round NaN = NaN"

definition successRate :: "render \<Rightarrow> jsnumber" where
  "successRate c =
     (if length (packets c) > 0
      then math_round (js_times_100
             (js_divide (length (filter (\<lambda>p. status p = Acknowledged) (packets c)))
                        (length (filter (\<lambda>p. \<not> truthy (isRetransmission p)) (packets c)))))
      else Number 0)"

section \<open>Invariants and scenarios\<close>

text \<open>The window never outgrows the configured size, which is never negative.\<close>

definition window_bounded :: "render \<Rightarrow> bool" where
  "window_bounded c \<longleftrightarrow> 0 \<le> windowSize c \<and> int (length (senderWindow c)) \<le> windowSize c"

text \<open>The sequence numbers that occur in a frame list.\<close>

definition sent_seqs :: "packet list \<Rightarrow> int set" where
  "sent_seqs ps = sequenceNumber ` set ps"

text \<open>
  The window holds sequence numbers in strictly ascending order, all below
  \<open>nextSequenceNumber\<close>, and each of them has a frame in the registry.
\<close>

definition window_ordered :: "render \<Rightarrow> bool" where
  "window_ordered c \<longleftrightarrow>
     sorted_wrt (<) (senderWindow c) \<and>
     (\<forall>q \<in> set (senderWindow c). q < nextSequenceNumber c) \<and>
     set (senderWindow c) \<subseteq> sent_seqs (packets c)"

text \<open>Go-Back-N with window size 1, one frame sent and arrived: the window is full.\<close>

definition full_window_world :: world where
  "full_window_world =
     run [Command (ChangeProtocol GoBackN), Command (ChangeWindowSize 1), Command SendFrame, Fire]
       (initial 0)"

text \<open>Frames 0, 1 and 2 sent one after the other, each arrived before the next is sent.\<close>

definition three_frames :: "protocol \<Rightarrow> world" where
  "three_frames p =
     run [Command (ChangeProtocol p), Command (ChangeWindowSize 3),
          Command SendFrame, Fire, Command SendFrame, Fire, Command SendFrame, Fire, Tick 100]
       (initial 0)"

text \<open>Selective-Repeat: frames 0, 1, 2 arrived; then ACK 2, ACK 1, ACK 0, 100 ms apart.\<close>

definition reverse_acks :: "event list" where
  "reverse_acks =
     [Command (Acknowledge 2), Tick 100, Command (Acknowledge 1), Tick 100,
      Command (Acknowledge 0)]"

text \<open>A single frame sent and arrived, under the given protocol.\<close>

definition one_frame :: "protocol \<Rightarrow> world" where
  "one_frame p = run [Command (ChangeProtocol p), Command SendFrame, Fire, Tick 100] (initial 0)"

text \<open>Go-Back-N with the initial window size 4: frames 0 and 1 sent and arrived.\<close>

definition two_frames :: world where
  "two_frames =
     run [Command (ChangeProtocol GoBackN), Command SendFrame, Fire, Command SendFrame, Fire,
          Tick 100]
       (initial 0)"

text \<open>
  NACK 0 is clicked, and 100 ms later, within the NACK's delay, a frame is sent; then the
  NACK's callback fires, which schedules the go-back callback.
\<close>

definition nack_then_send :: "event list" where
  "nack_then_send = [Command (NegativeAcknowledge 0), Tick 100, Command SendFrame, Fire]"

text \<open>
  NACK 1 is clicked, and 100 ms later, within the NACK's delay, ACK 0; then the NACK's
  callback fires, which schedules the go-back callback, and the ACK's callback fires, which
  takes 0 out of the window.
\<close>

definition nack_then_ack :: "event list" where
  "nack_then_ack =
     [Command (NegativeAcknowledge 1), Tick 100, Command (Acknowledge 0), Fire, Fire]"

text \<open>
  Go-Back-N: the single frame has been acknowledged and the acknowledgment's callback has
  fired, so the window is empty again.
\<close>

definition drained_window :: world where
  "drained_window = run [Command (Acknowledge 0), Fire] (one_frame GoBackN)"

text \<open>
  Stop-and-Wait: frame 0 is sent, arrives and is negatively acknowledged; its
  retransmission arrives, which clears \<open>waitingForAck\<close>; frame 1 is sent and arrives.
  The receiver still expects 0.
\<close>

definition ahead_of_expected :: world where
  "ahead_of_expected =
     run [Command SendFrame, Fire, Tick 100, Command (NegativeAcknowledge 0), Fire, Fire,
          Tick 100, Command SendFrame, Fire, Tick 100]
       (initial 0)"

text \<open>
  Stop-and-Wait: frame 0 is sent and arrives, NACK is clicked, the simulation is reset
  before the NACK's timer fires, and then the timer fires.
\<close>

definition nack_then_reset :: world where
  "nack_then_reset =
     run [Command SendFrame, Fire, Tick 100, Command (NegativeAcknowledge 0), Tick 100,
          Command Reset, Fire]
       (initial 0)"

section \<open>Auxiliary facts\<close>

lemmas setter_defs = setProtocol_def setPackets_def setAcks_def setIsSimulating_def
  setWindowSize_def setNextSequenceNumber_def setExpectedSequenceNumber_def
  setSenderWindow_def setReceiverBuffer_def setWaitingForAck_def setShowDiagram_def
  setTimeout_def

lemmas handler_defs = initial_def resetSimulation_def canSendPacket_def sendPacket_def
  retransmitPacket_def retransmitFromSequence_def losePacket_def sendAck_def sendNack_def
  ackTimeout_def nackTimeout_def fire_def

lemmas eval_defs = handler_defs setter_defs string_of_int_def string_of_nat.simps digit_def
  Let_def

lemma reachable_run: "reachable w \<Longrightarrow> reachable (run es w)"
  by (induction es arbitrary: w) (simp_all add: reachable_step)

lemma math_min_Infinity_iff: "math_min xs = Infinity \<longleftrightarrow> xs = []"
  by (cases xs) (auto split: bound.splits)

lemma math_min_Min: "xs \<noteq> [] \<Longrightarrow> math_min xs = Finite (Min (set xs))"
proof (induction xs)
  case Nil
  then show ?case by simp
next
  case (Cons x xs)
  show ?case
  proof (cases "xs = []")
    case True
    then show ?thesis by simp
  next
    case False
    with Cons have "math_min xs = Finite (Min (set xs))" by simp
    with False show ?thesis by simp
  qed
qed

lemma le_filter: "int (length xs) \<le> n \<Longrightarrow> int (length (filter P xs)) \<le> n"
  using length_filter_le [of P xs] by linarith

lemma ui_forEach_retransmit [simp]: "ui (forEach_retransmit c i qs w) = ui w"
  by (induction qs arbitrary: i w) (simp_all add: setTimeout_def)

lemma now_forEach_retransmit [simp]: "now (forEach_retransmit c i qs w) = now w"
  by (induction qs arbitrary: i w) (simp_all add: setTimeout_def)

lemma window_bounded_sendPacket:
  "window_bounded (ui w) \<Longrightarrow> window_bounded (ui (sendPacket (ui w) w))"
  by (auto simp: window_bounded_def sendPacket_def canSendPacket_def setter_defs Let_def
      split: protocol.splits if_splits)

lemma window_bounded_sendAck:
  "window_bounded (ui w) \<Longrightarrow> window_bounded (ui (sendAck c s w))"
  by (auto simp: window_bounded_def sendAck_def setter_defs Let_def le_filter
      split: protocol.splits option.splits prod.splits)

lemma retransmitPacket_keeps:
  "protocol (ui (retransmitPacket c s w)) = protocol (ui w)"
  "acks (ui (retransmitPacket c s w)) = acks (ui w)"
  "windowSize (ui (retransmitPacket c s w)) = windowSize (ui w)"
  "nextSequenceNumber (ui (retransmitPacket c s w)) = nextSequenceNumber (ui w)"
  "expectedSequenceNumber (ui (retransmitPacket c s w)) = expectedSequenceNumber (ui w)"
  "senderWindow (ui (retransmitPacket c s w)) = senderWindow (ui w)"
  "receiverBuffer (ui (retransmitPacket c s w)) = receiverBuffer (ui w)"
  "now (retransmitPacket c s w) = now w"
  by (simp_all add: retransmitPacket_def setter_defs Let_def split: option.splits)

lemma window_bounded_perform:
  "window_bounded (ui w) \<Longrightarrow> window_bounded (ui (perform cmd w))"
proof (cases cmd)
  case SendFrame
  assume "window_bounded (ui w)"
  with SendFrame show ?thesis by (simp add: window_bounded_sendPacket)
next
  case (Acknowledge s)
  assume "window_bounded (ui w)"
  with Acknowledge show ?thesis by (simp add: window_bounded_sendAck)
qed (auto simp: window_bounded_def sendNack_def losePacket_def resetSimulation_def setter_defs
      Let_def split: option.splits)

lemma window_bounded_run_task:
  "window_bounded (ui w) \<Longrightarrow> window_bounded (ui (run_task k w))"
  by (cases k)
    (auto simp: window_bounded_def nackTimeout_def ackTimeout_def retransmitFromSequence_def
      retransmitPacket_keeps setter_defs Let_def le_filter)

lemma window_bounded_step: "window_bounded (ui w) \<Longrightarrow> window_bounded (ui (step e w))"
proof (cases e)
  case (Command cmd)
  assume "window_bounded (ui w)"
  with Command show ?thesis by (simp add: window_bounded_perform)
next
  case Fire
  assume "window_bounded (ui w)"
  then have "window_bounded (ui (run_task k (w\<lparr>now := t, timers := r\<rparr>)))" for k t r
    by (intro window_bounded_run_task) simp
  with Fire \<open>window_bounded (ui w)\<close> show ?thesis
    by (simp add: fire_def split: option.splits prod.splits)
next
  case (Tick d)
  assume "window_bounded (ui w)"
  with Tick show ?thesis by simp
qed

lemma reachable_window_bounded: "reachable w \<Longrightarrow> window_bounded (ui w)"
proof (induction rule: reachable.induct)
  case (reachable_initial t0)
  show ?case by (simp add: window_bounded_def initial_def)
next
  case (reachable_step w e)
  then show ?case by (simp add: window_bounded_step)
qed

section \<open>Sender gating and the window bound\<close>

text \<open>
  Claim C5. Under Go-Back-N and Selective-Repeat, while no send is in flight
  (\<open>isSimulating\<close> clear), \<open>canSendPacket\<close> is true exactly when the window holds fewer
  than \<open>windowSize\<close> numbers and is either empty or has \<open>nextSequenceNumber\<close> within
  \<open>[min window, min window + windowSize - 1]\<close>. The send command changes nothing when
  \<open>canSendPacket\<close> is false, and in every reachable state the window holds at most
  \<open>windowSize\<close> numbers.
\<close>

theorem canSend_window_gate:
  "(protocol c \<in> {GoBackN, SelectiveRepeat} \<and> \<not> isSimulating c \<longrightarrow>
      canSendPacket c =
        (int (length (senderWindow c)) < windowSize c \<and>
         (senderWindow c = [] \<or>
          (Min (set (senderWindow c)) \<le> nextSequenceNumber c \<and>
           nextSequenceNumber c \<le> Min (set (senderWindow c)) + windowSize c - 1)))) \<and>
   (\<not> canSendPacket (ui w) \<longrightarrow> perform SendFrame w = w) \<and>
   (reachable w \<longrightarrow> int (length (senderWindow (ui w))) \<le> windowSize (ui w))"
proof (intro conjI impI)
  assume a: "protocol c \<in> {GoBackN, SelectiveRepeat} \<and> \<not> isSimulating c"
  show "canSendPacket c =
        (int (length (senderWindow c)) < windowSize c \<and>
         (senderWindow c = [] \<or>
          (Min (set (senderWindow c)) \<le> nextSequenceNumber c \<and>
           nextSequenceNumber c \<le> Min (set (senderWindow c)) + windowSize c - 1)))"
  proof (cases "senderWindow c = []")
    case True
    with a show ?thesis by (auto simp: canSendPacket_def)
  next
    case False
    with a math_min_Min [OF False] show ?thesis
      by (auto simp: canSendPacket_def Let_def)
  qed
next
  assume "\<not> canSendPacket (ui w)"
  then show "perform SendFrame w = w" by (simp add: sendPacket_def)
next
  assume "reachable w"
  then show "int (length (senderWindow (ui w))) \<le> windowSize (ui w)"
    using reachable_window_bounded by (simp add: window_bounded_def)
qed


theorem canSend_window_gate_witness:
  "protocol (ui full_window_world) \<in> {GoBackN, SelectiveRepeat} \<and>
   \<not> isSimulating (ui full_window_world) \<and>
   senderWindow (ui full_window_world) = [0] \<and>
   windowSize (ui full_window_world) = 1 \<and>
   \<not> canSendPacket (ui full_window_world) \<and>
   perform SendFrame full_window_world = full_window_world \<and>
   reachable full_window_world \<and>
   int (length (senderWindow (ui full_window_world))) \<le> windowSize (ui full_window_world)"
proof -
  have r: "reachable full_window_world"
    unfolding full_window_world_def by (rule reachable_run) (rule reachable_initial)
  have e: "ui full_window_world =
      \<lparr>protocol = GoBackN,
       packets = [\<lparr>packet_id = 0, sequenceNumber = 0, data = ''Frame 0'', status = Received,
                   timestamp = 0, isRetransmission = None\<rparr>],
       acks = [], isSimulating = False, windowSize = 1, nextSequenceNumber = 1,
       expectedSequenceNumber = 0, senderWindow = [0], receiverBuffer = [],
       waitingForAck = False, showDiagram = False\<rparr>"
    unfolding full_window_world_def by (simp add: eval_defs)
  from canSend_window_gate [of "ui full_window_world" full_window_world] r e
  show ?thesis by simp
qed

section \<open>The sequence counter of the sender\<close>

lemma nextSequenceNumber_run_task:
  "nextSequenceNumber (ui (run_task k w)) = nextSequenceNumber (ui w)"
  by (cases k)
    (auto simp: nackTimeout_def ackTimeout_def retransmitFromSequence_def
      retransmitPacket_keeps setter_defs Let_def)

lemma nextSequenceNumber_fire: "nextSequenceNumber (ui (fire w)) = nextSequenceNumber (ui w)"
  by (simp add: fire_def nextSequenceNumber_run_task split: option.splits prod.splits)

lemma nextSequenceNumber_other_commands:
  "cmd \<noteq> SendFrame \<Longrightarrow> cmd \<noteq> Reset \<Longrightarrow> \<forall>p. cmd \<noteq> ChangeProtocol p \<Longrightarrow>
   \<forall>n. cmd \<noteq> ChangeWindowSize n \<Longrightarrow>
   nextSequenceNumber (ui (perform cmd w)) = nextSequenceNumber (ui w)"
  by (cases cmd)
    (auto simp: sendAck_def sendNack_def losePacket_def setter_defs Let_def
      split: option.splits protocol.splits prod.splits)

lemma nextSequenceNumber_sendPacket:
  "canSendPacket (ui w) \<Longrightarrow>
   nextSequenceNumber (ui (sendPacket (ui w) w)) = nextSequenceNumber (ui w) + 1"
  by (simp add: sendPacket_def setter_defs Let_def)

lemma nextSequenceNumber_nonneg_step:
  "0 \<le> nextSequenceNumber (ui w) \<Longrightarrow> 0 \<le> nextSequenceNumber (ui (step e w))"
proof (cases e)
  case (Command cmd)
  assume n: "0 \<le> nextSequenceNumber (ui w)"
  show ?thesis
  proof (cases "cmd = SendFrame \<or> cmd = Reset \<or> (\<exists>p. cmd = ChangeProtocol p) \<or>
      (\<exists>k. cmd = ChangeWindowSize k)")
    case True
    with Command n nextSequenceNumber_sendPacket [of w] show ?thesis
      by (cases "canSendPacket (ui w)")
        (auto simp: resetSimulation_def setter_defs sendPacket_def)
  next
    case False
    with Command n show ?thesis by (simp add: nextSequenceNumber_other_commands)
  qed
next
  case Fire
  assume "0 \<le> nextSequenceNumber (ui w)"
  with Fire show ?thesis by (simp add: nextSequenceNumber_fire)
next
  case (Tick d)
  assume "0 \<le> nextSequenceNumber (ui w)"
  with Tick show ?thesis by simp
qed

lemma reachable_nextSequenceNumber_nonneg: "reachable w \<Longrightarrow> 0 \<le> nextSequenceNumber (ui w)"
  by (induction rule: reachable.induct)
    (simp_all add: initial_def nextSequenceNumber_nonneg_step)

text \<open>
  Claim C8. \<open>nextSequenceNumber\<close> starts at 0; a send that passes the gate adds exactly 1
  to it and a send that does not pass changes nothing; no timer callback changes it, in
  particular no retransmission, whose new frame carries the sequence number it was asked
  for; every other event except reset and reconfiguration leaves it as it is; reset and
  reconfiguration set it to 0; and it is never negative in a reachable state.
\<close>

theorem nextSequenceNumber_discipline:
  "nextSequenceNumber (ui (initial t0)) = 0 \<and>
   (canSendPacket (ui w) \<longrightarrow>
      nextSequenceNumber (ui (step (Command SendFrame) w)) = nextSequenceNumber (ui w) + 1) \<and>
   (\<not> canSendPacket (ui w) \<longrightarrow> step (Command SendFrame) w = w) \<and>
   nextSequenceNumber (ui (run_task k w)) = nextSequenceNumber (ui w) \<and>
   nextSequenceNumber (ui (retransmitPacket c s w)) = nextSequenceNumber (ui w) \<and>
   (\<forall>p \<in> set (packets c). sequenceNumber p = s \<longrightarrow>
      (\<exists>r. packets (ui (retransmitPacket c s w)) = packets (ui w) @ [r] \<and>
           sequenceNumber r = s \<and> isRetransmission r = Some True)) \<and>
   (e \<noteq> Command SendFrame \<and> e \<noteq> Command Reset \<and> (\<forall>p. e \<noteq> Command (ChangeProtocol p)) \<and>
    (\<forall>n. e \<noteq> Command (ChangeWindowSize n)) \<longrightarrow>
      nextSequenceNumber (ui (step e w)) = nextSequenceNumber (ui w)) \<and>
   nextSequenceNumber (ui (step (Command Reset) w)) = 0 \<and>
   nextSequenceNumber (ui (step (Command (ChangeProtocol p)) w)) = 0 \<and>
   nextSequenceNumber (ui (step (Command (ChangeWindowSize n)) w)) =
     (if 1 \<le> n \<and> n \<le> 8 then 0 else nextSequenceNumber (ui w)) \<and>
   (reachable w \<longrightarrow> 0 \<le> nextSequenceNumber (ui w))"
proof (intro conjI impI ballI)
  show "nextSequenceNumber (ui (initial t0)) = 0" by (simp add: initial_def)
next
  assume "canSendPacket (ui w)"
  then show "nextSequenceNumber (ui (step (Command SendFrame) w)) = nextSequenceNumber (ui w) + 1"
    by (simp add: nextSequenceNumber_sendPacket)
next
  assume "\<not> canSendPacket (ui w)"
  then show "step (Command SendFrame) w = w" by (simp add: sendPacket_def)
next
  show "nextSequenceNumber (ui (run_task k w)) = nextSequenceNumber (ui w)"
    by (rule nextSequenceNumber_run_task)
next
  show "nextSequenceNumber (ui (retransmitPacket c s w)) = nextSequenceNumber (ui w)"
    by (rule retransmitPacket_keeps)
next
  fix p assume "p \<in> set (packets c)" "sequenceNumber p = s"
  then have "find (\<lambda>p. sequenceNumber p = s) (packets c) \<noteq> None"
    by (auto simp: find_None_iff)
  then show "\<exists>r. packets (ui (retransmitPacket c s w)) = packets (ui w) @ [r] \<and>
           sequenceNumber r = s \<and> isRetransmission r = Some True"
    by (auto simp: retransmitPacket_def setter_defs Let_def)
next
  assume a: "e \<noteq> Command SendFrame \<and> e \<noteq> Command Reset \<and> (\<forall>p. e \<noteq> Command (ChangeProtocol p)) \<and>
    (\<forall>n. e \<noteq> Command (ChangeWindowSize n))"
  show "nextSequenceNumber (ui (step e w)) = nextSequenceNumber (ui w)"
  proof (cases e)
    case (Command cmd)
    with a show ?thesis by (simp add: nextSequenceNumber_other_commands)
  next
    case Fire
    then show ?thesis by (simp add: nextSequenceNumber_fire)
  next
    case (Tick d)
    then show ?thesis by simp
  qed
next
  show "nextSequenceNumber (ui (step (Command Reset) w)) = 0"
    by (simp add: resetSimulation_def setter_defs)
next
  show "nextSequenceNumber (ui (step (Command (ChangeProtocol p)) w)) = 0"
    by (simp add: resetSimulation_def setter_defs)
next
  show "nextSequenceNumber (ui (step (Command (ChangeWindowSize n)) w)) =
     (if 1 \<le> n \<and> n \<le> 8 then 0 else nextSequenceNumber (ui w))"
    by (simp add: resetSimulation_def setter_defs)
next
  assume "reachable w"
  then show "0 \<le> nextSequenceNumber (ui w)" by (rule reachable_nextSequenceNumber_nonneg)
qed


theorem nextSequenceNumber_discipline_witness:
  "canSendPacket (ui (one_frame GoBackN)) \<and>
   nextSequenceNumber (ui (one_frame GoBackN)) = 1 \<and>
   nextSequenceNumber (ui (step (Command SendFrame) (one_frame GoBackN))) = 2 \<and>
   \<not> canSendPacket (ui full_window_world) \<and>
   step (Command SendFrame) full_window_world = full_window_world \<and>
   sequenceNumber (hd (packets (ui (one_frame GoBackN)))) = 0 \<and>
   map sequenceNumber
     (packets (ui (retransmitPacket (ui (one_frame GoBackN)) 0 (one_frame GoBackN)))) = [0, 0] \<and>
   nextSequenceNumber
     (ui (retransmitPacket (ui (one_frame GoBackN)) 0 (one_frame GoBackN))) = 1 \<and>
   nextSequenceNumber (ui (step (Command (Acknowledge 0)) (one_frame GoBackN))) = 1 \<and>
   reachable (one_frame GoBackN)"
proof -
  have r: "reachable (one_frame GoBackN)"
    unfolding one_frame_def by (rule reachable_run) (rule reachable_initial)
  have c: "canSendPacket (ui (one_frame GoBackN))"
    by (simp add: one_frame_def eval_defs)
  have f: "\<not> canSendPacket (ui full_window_world)"
    by (simp add: full_window_world_def eval_defs)
  have p: "hd (packets (ui (one_frame GoBackN))) \<in> set (packets (ui (one_frame GoBackN)))"
    "sequenceNumber (hd (packets (ui (one_frame GoBackN)))) = 0"
    by (simp_all add: one_frame_def eval_defs)
  have n: "nextSequenceNumber (ui (one_frame GoBackN)) = 1"
    "map sequenceNumber (packets (ui (one_frame GoBackN))) = [0]"
    by (simp_all add: one_frame_def eval_defs)
  from nextSequenceNumber_discipline
      [of 0 "one_frame GoBackN" "RetransmitTimer (ui (one_frame GoBackN)) 0"
        "ui (one_frame GoBackN)" 0 "Command (Acknowledge 0)" Simple 1]
    nextSequenceNumber_discipline
      [of 0 full_window_world "PacketArrives 0" "ui full_window_world" 0 Fire Simple 1]
    r c f p n
  show ?thesis by auto
qed

section \<open>Negative acknowledgment\<close>

text \<open>
  Claim C9. Under every protocol other than Stop-and-Wait, the negative-acknowledge command
  appends a NACK record for its sequence number to the acknowledgment log, whether or not a
  frame with that number exists; the acknowledge command changes nothing unless a frame
  with that number and status \<open>Received\<close> exists.
\<close>

theorem negative_acknowledge_has_no_precondition:
  "(protocol (ui w) \<noteq> StopAndWait \<longrightarrow>
      acks (ui (perform (NegativeAcknowledge s) w)) =
        acks (ui w) @ [\<lparr>ack_id = now w, ack_sequenceNumber = s, ack_status = AckSending,
                         ack_timestamp = now w, ack_type = NACK\<rparr>]) \<and>
   ((\<forall>p \<in> set (packets (ui w)). \<not> (sequenceNumber p = s \<and> status p = Received)) \<longrightarrow>
      perform (Acknowledge s) w = w)"
proof (intro conjI impI)
  assume "protocol (ui w) \<noteq> StopAndWait"
  then show "acks (ui (perform (NegativeAcknowledge s) w)) =
        acks (ui w) @ [\<lparr>ack_id = now w, ack_sequenceNumber = s, ack_status = AckSending,
                         ack_timestamp = now w, ack_type = NACK\<rparr>]"
    by (simp add: sendNack_def setter_defs Let_def)
next
  assume "\<forall>p \<in> set (packets (ui w)). \<not> (sequenceNumber p = s \<and> status p = Received)"
  then have "find (\<lambda>p. sequenceNumber p = s \<and> status p = Received) (packets (ui w)) = None"
    by (simp add: find_None_iff)
  then show "perform (Acknowledge s) w = w" by (simp add: sendAck_def)
qed

theorem negative_acknowledge_has_no_precondition_witness:
  "protocol (ui (one_frame GoBackN)) \<noteq> StopAndWait \<and>
   map sequenceNumber (packets (ui (one_frame GoBackN))) = [0] \<and>
   acks (ui (one_frame GoBackN)) = [] \<and>
   acks (ui (perform (NegativeAcknowledge 5) (one_frame GoBackN))) =
     [\<lparr>ack_id = 1100, ack_sequenceNumber = 5, ack_status = AckSending, ack_timestamp = 1100,
       ack_type = NACK\<rparr>] \<and>
   perform (Acknowledge 5) (one_frame GoBackN) = one_frame GoBackN"
proof -
  have e: "protocol (ui (one_frame GoBackN)) = GoBackN"
    "map sequenceNumber (packets (ui (one_frame GoBackN))) = [0]"
    "acks (ui (one_frame GoBackN)) = []"
    "now (one_frame GoBackN) = 1100"
    by (simp_all add: one_frame_def eval_defs)
  from e(2) have n: "\<forall>p \<in> set (packets (ui (one_frame GoBackN))).
      \<not> (sequenceNumber p = 5 \<and> status p = Received)"
    by auto
  from negative_acknowledge_has_no_precondition [of "one_frame GoBackN" 5] e n
  show ?thesis by simp
qed

text \<open>
  Claim C10. Under Go-Back-N with an empty sender window, the negative-acknowledge command
  only appends the NACK record and schedules its callback; the callback marks the frames
  with that number \<open>Lost\<close> and schedules the go-back callback; the base \<open>Math.min()\<close> of
  the empty window is \<open>Infinity\<close>, so the go-back callback schedules nothing and changes
  nothing. Run to the end from a state without other timers, the registry has gained no
  frame and no timer is left.
\<close>

theorem go_back_n_nack_on_empty_window:
  assumes "protocol (ui w) = GoBackN" and "senderWindow (ui w) = []"
  shows "math_min (senderWindow (ui w)) = Infinity \<and>
    perform (NegativeAcknowledge s) w =
      w\<lparr>ui := (ui w)\<lparr>acks := acks (ui w) @
              [\<lparr>ack_id = now w, ack_sequenceNumber = s, ack_status = AckSending,
                ack_timestamp = now w, ack_type = NACK\<rparr>]\<rparr>,
        timers := timers w @ [(now w + 500, NackTimer (ui w) (now w) s)]\<rparr> \<and>
    (\<forall>a w1. packets (ui (run_task (NackTimer (ui w) a s) w1)) =
        map (\<lambda>p. if sequenceNumber p = s then p\<lparr>status := Lost\<rparr> else p) (packets (ui w1)) \<and>
      timers (run_task (NackTimer (ui w) a s) w1) =
        timers w1 @ [(now w1 + 500, GoBackTimer (ui w))]) \<and>
    (\<forall>w2. run_task (GoBackTimer (ui w)) w2 = w2) \<and>
    (timers w = [] \<longrightarrow>
       packets (ui (run [Command (NegativeAcknowledge s), Fire, Fire] w)) =
         map (\<lambda>p. if sequenceNumber p = s then p\<lparr>status := Lost\<rparr> else p) (packets (ui w)) \<and>
       timers (run [Command (NegativeAcknowledge s), Fire, Fire] w) = [])"
proof (intro conjI allI impI)
  show "math_min (senderWindow (ui w)) = Infinity" using assms by simp
next
  show "perform (NegativeAcknowledge s) w =
      w\<lparr>ui := (ui w)\<lparr>acks := acks (ui w) @
              [\<lparr>ack_id = now w, ack_sequenceNumber = s, ack_status = AckSending,
                ack_timestamp = now w, ack_type = NACK\<rparr>]\<rparr>,
        timers := timers w @ [(now w + 500, NackTimer (ui w) (now w) s)]\<rparr>"
    using assms by (simp add: sendNack_def setter_defs Let_def)
next
  fix a w1
  show "packets (ui (run_task (NackTimer (ui w) a s) w1)) =
        map (\<lambda>p. if sequenceNumber p = s then p\<lparr>status := Lost\<rparr> else p) (packets (ui w1))"
    using assms by (simp add: nackTimeout_def setter_defs Let_def)
  show "timers (run_task (NackTimer (ui w) a s) w1) =
        timers w1 @ [(now w1 + 500, GoBackTimer (ui w))]"
    using assms by (simp add: nackTimeout_def setter_defs Let_def)
next
  fix w2
  show "run_task (GoBackTimer (ui w)) w2 = w2"
    using assms by (simp add: retransmitFromSequence_def)
next
  assume "timers w = []"
  then show "packets (ui (run [Command (NegativeAcknowledge s), Fire, Fire] w)) =
         map (\<lambda>p. if sequenceNumber p = s then p\<lparr>status := Lost\<rparr> else p) (packets (ui w))"
    using assms
    by (simp add: sendNack_def nackTimeout_def fire_def retransmitFromSequence_def
        setter_defs Let_def)
next
  assume "timers w = []"
  then show "timers (run [Command (NegativeAcknowledge s), Fire, Fire] w) = []"
    using assms
    by (simp add: sendNack_def nackTimeout_def fire_def retransmitFromSequence_def
        setter_defs Let_def)
qed

theorem go_back_n_nack_on_empty_window_witness:
  "protocol (ui drained_window) = GoBackN \<and>
   senderWindow (ui drained_window) = [] \<and>
   timers drained_window = [] \<and>
   map (\<lambda>p. (sequenceNumber p, status p)) (packets (ui drained_window)) =
     [(0, Acknowledged)] \<and>
   map (\<lambda>p. (sequenceNumber p, status p))
     (packets (ui (run [Command (NegativeAcknowledge 0), Fire, Fire] drained_window))) =
     [(0, Lost)] \<and>
   timers (run [Command (NegativeAcknowledge 0), Fire, Fire] drained_window) = []"
proof -
  have e: "protocol (ui drained_window) = GoBackN"
    "senderWindow (ui drained_window) = []"
    "timers drained_window = []"
    "map (\<lambda>p. (sequenceNumber p, status p)) (packets (ui drained_window)) =
       [(0, Acknowledged)]"
    by (simp_all add: drained_window_def one_frame_def eval_defs)
  have m: "map (\<lambda>p. (sequenceNumber p, status p))
      (map (\<lambda>p. if sequenceNumber p = 0 then p\<lparr>status := Lost\<rparr> else p)
        (packets (ui drained_window))) = [(0, Lost)]"
    by (simp add: drained_window_def one_frame_def eval_defs)
  from go_back_n_nack_on_empty_window [OF e(1) e(2), of 0] e(3)
  have k: "packets (ui (run [Command (NegativeAcknowledge 0), Fire, Fire] drained_window)) =
      map (\<lambda>p. if sequenceNumber p = 0 then p\<lparr>status := Lost\<rparr> else p)
        (packets (ui drained_window))"
    "timers (run [Command (NegativeAcknowledge 0), Fire, Fire] drained_window) = []"
    by blast+
  from k m e show ?thesis by (simp del: run.simps)
qed

section \<open>Go-Back-N retransmission after a negative acknowledgment\<close>

lemma sent_seqs_Nil [simp]: "sent_seqs [] = {}"
  by (simp add: sent_seqs_def)

lemma sent_seqs_append [simp]: "sent_seqs (ps @ [p]) = insert (sequenceNumber p) (sent_seqs ps)"
  by (auto simp: sent_seqs_def)

lemma sent_seqs_status [simp]:
  "sent_seqs (map (\<lambda>p. if P p then p\<lparr>status := st\<rparr> else p) ps) = sent_seqs ps"
  by (induction ps) (auto simp: sent_seqs_def)

lemma packets_retransmitPacket:
  "sent_seqs (packets (ui w)) \<subseteq> sent_seqs (packets (ui (retransmitPacket c s w)))"
  by (auto simp: retransmitPacket_def setter_defs Let_def split: option.splits)

lemma window_ordered_sendPacket:
  "window_ordered (ui w) \<Longrightarrow> window_ordered (ui (sendPacket (ui w) w))"
  by (auto simp: window_ordered_def sendPacket_def setter_defs Let_def sorted_wrt_append)

lemma window_ordered_filter:
  "window_ordered c \<Longrightarrow> window_ordered (c\<lparr>senderWindow := filter P (senderWindow c)\<rparr>)"
  by (auto simp: window_ordered_def sorted_wrt_filter)

lemma window_ordered_sendAck:
  "window_ordered (ui w) \<Longrightarrow> window_ordered (ui (sendAck c s w))"
  by (auto simp: window_ordered_def sendAck_def setter_defs Let_def sorted_wrt_filter
      split: protocol.splits option.splits prod.splits)

lemma window_ordered_retransmitPacket:
  "window_ordered (ui w) \<Longrightarrow> window_ordered (ui (retransmitPacket c s w))"
  using packets_retransmitPacket [of w c s]
  by (auto simp: window_ordered_def retransmitPacket_keeps)

lemma window_ordered_perform:
  "window_ordered (ui w) \<Longrightarrow> window_ordered (ui (perform cmd w))"
proof (cases cmd)
  case SendFrame
  assume "window_ordered (ui w)"
  with SendFrame show ?thesis by (simp add: window_ordered_sendPacket)
next
  case (Acknowledge s)
  assume "window_ordered (ui w)"
  with Acknowledge show ?thesis by (simp add: window_ordered_sendAck)
qed (auto simp: window_ordered_def sendNack_def losePacket_def resetSimulation_def setter_defs
      Let_def split: option.splits)

lemma window_ordered_run_task:
  assumes "window_ordered (ui w)"
  shows "window_ordered (ui (run_task k w))"
proof (cases k)
  case (RetransmitTimer c s)
  with assms show ?thesis by (simp add: window_ordered_retransmitPacket)
next
  case (NackTimer c a s)
  have "window_ordered (ui (setPackets (map (\<lambda>p. if sequenceNumber p = s then p\<lparr>status := Lost\<rparr> else p)) (setAcks g w)))" for g
    using assms by (auto simp: window_ordered_def setter_defs)
  moreover have "window_ordered (ui (setPackets (map (\<lambda>p. if sequenceNumber p = s then p\<lparr>status := Lost\<rparr> else p)) w))"
    using assms by (auto simp: window_ordered_def setter_defs)
  ultimately show ?thesis using NackTimer
    by (auto simp: nackTimeout_def Let_def window_ordered_retransmitPacket)
      (auto simp: window_ordered_def setter_defs)
qed (use assms in \<open>auto simp: window_ordered_def ackTimeout_def retransmitFromSequence_def
      setter_defs Let_def sorted_wrt_filter\<close>)

lemma window_ordered_step: "window_ordered (ui w) \<Longrightarrow> window_ordered (ui (step e w))"
proof (cases e)
  case (Command cmd)
  assume "window_ordered (ui w)"
  with Command show ?thesis by (simp add: window_ordered_perform)
next
  case Fire
  assume "window_ordered (ui w)"
  then have "window_ordered (ui (run_task k (w\<lparr>now := t, timers := r\<rparr>)))" for k t r
    by (intro window_ordered_run_task) simp
  with Fire \<open>window_ordered (ui w)\<close> show ?thesis
    by (simp add: fire_def split: option.splits prod.splits)
next
  case (Tick d)
  assume "window_ordered (ui w)"
  with Tick show ?thesis by simp
qed

lemma reachable_window_ordered: "reachable w \<Longrightarrow> window_ordered (ui w)"
proof (induction rule: reachable.induct)
  case (reachable_initial t0)
  show ?case by (simp add: window_ordered_def initial_def)
next
  case (reachable_step w e)
  then show ?case by (simp add: window_ordered_step)
qed

lemma forEach_retransmit_timers:
  "forEach_retransmit c i qs w =
     w\<lparr>timers := timers w @
          map (\<lambda>(j, q). (now w + int j * 500, RetransmitTimer c q)) (enumerate i qs)\<rparr>"
  by (induction qs arbitrary: i w) (simp_all add: setTimeout_def)

lemma math_min_lower: "math_min ws = Finite m \<Longrightarrow> q \<in> set ws \<Longrightarrow> m \<le> q"
  by (induction ws arbitrary: m) (auto simp: math_min_Infinity_iff split: bound.splits)

lemma filter_from_base: "filter (\<lambda>q. ge_bound q (math_min ws)) ws = ws"
proof (cases "math_min ws")
  case (Finite m)
  then show ?thesis by (simp add: math_min_lower)
next
  case Infinity
  then show ?thesis by (simp add: math_min_Infinity_iff)
qed


text \<open>
  What the callbacks of a negative acknowledgment resend under Go-Back-N is the window of
  the render that handled the click, \<open>senderWindow (ui w)\<close>: lines 133 and 270 read
  \<open>senderWindow\<close> from that closure. In a reachable state \<open>w\<close>, the command for a number
  \<open>s\<close> of the window schedules its callback 500 ms ahead; that callback schedules the
  go-back callback another 500 ms ahead; the go-back callback schedules one retransmission
  for every number of the captured window that is at least its least one, which is all of
  it, in ascending order, 500 ms apart; and each of these retransmissions appends a new
  frame with that number, status \<open>Retransmitting\<close> and \<open>isRetransmission\<close> true. The window
  at the time the callbacks fire plays no part.
\<close>

lemma go_back_n_nack_resends_captured:
  assumes "reachable w" and "protocol (ui w) = GoBackN" and "s \<in> set (senderWindow (ui w))"
  shows "timers (perform (NegativeAcknowledge s) w) =
           timers w @ [(now w + 500, NackTimer (ui w) (now w) s)] \<and>
    (\<forall>a w1. timers (run_task (NackTimer (ui w) a s) w1) =
        timers w1 @ [(now w1 + 500, GoBackTimer (ui w))]) \<and>
    (\<forall>w2. run_task (GoBackTimer (ui w)) w2 =
        w2\<lparr>timers := timers w2 @
              map (\<lambda>(i, q). (now w2 + int i * 500, RetransmitTimer (ui w) q))
                (enumerate 0
                  (filter (\<lambda>q. Min (set (senderWindow (ui w))) \<le> q) (senderWindow (ui w))))\<rparr>) \<and>
    filter (\<lambda>q. Min (set (senderWindow (ui w))) \<le> q) (senderWindow (ui w)) =
      senderWindow (ui w) \<and>
    sorted_wrt (<) (senderWindow (ui w)) \<and>
    (\<forall>q \<in> set (senderWindow (ui w)). \<forall>w3. \<exists>r.
        packets (ui (run_task (RetransmitTimer (ui w) q) w3)) = packets (ui w3) @ [r] \<and>
        sequenceNumber r = q \<and> status r = Retransmitting \<and> isRetransmission r = Some True)"
proof (intro conjI allI ballI)
  have ne: "senderWindow (ui w) \<noteq> []" using assms(3) by auto
  have inv: "window_ordered (ui w)" using assms(1) by (rule reachable_window_ordered)
  have base: "math_min (senderWindow (ui w)) = Finite (Min (set (senderWindow (ui w))))"
    using ne by (rule math_min_Min)
  show "timers (perform (NegativeAcknowledge s) w) =
           timers w @ [(now w + 500, NackTimer (ui w) (now w) s)]"
    by (simp add: sendNack_def setter_defs Let_def)
  show "timers (run_task (NackTimer (ui w) a s) w1) =
        timers w1 @ [(now w1 + 500, GoBackTimer (ui w))]" for a w1
    using assms(2) by (simp add: nackTimeout_def setter_defs Let_def)
  show "run_task (GoBackTimer (ui w)) w2 =
        w2\<lparr>timers := timers w2 @
              map (\<lambda>(i, q). (now w2 + int i * 500, RetransmitTimer (ui w) q))
                (enumerate 0
                  (filter (\<lambda>q. Min (set (senderWindow (ui w))) \<le> q) (senderWindow (ui w))))\<rparr>"
    for w2
    using base by (simp add: retransmitFromSequence_def forEach_retransmit_timers)
  show "filter (\<lambda>q. Min (set (senderWindow (ui w))) \<le> q) (senderWindow (ui w)) =
      senderWindow (ui w)"
    using filter_from_base [of "senderWindow (ui w)"] base by simp
  show "sorted_wrt (<) (senderWindow (ui w))"
    using inv by (simp add: window_ordered_def)
  show "\<exists>r. packets (ui (run_task (RetransmitTimer (ui w) q) w3)) = packets (ui w3) @ [r] \<and>
        sequenceNumber r = q \<and> status r = Retransmitting \<and> isRetransmission r = Some True"
    if "q \<in> set (senderWindow (ui w))" for q w3
  proof -
    from that inv have "q \<in> sent_seqs (packets (ui w))"
      by (auto simp: window_ordered_def)
    then have "find (\<lambda>p. sequenceNumber p = q) (packets (ui w)) \<noteq> None"
      by (auto simp: sent_seqs_def find_None_iff)
    then show ?thesis
      by (auto simp: retransmitPacket_def setter_defs Let_def)
  qed
qed

lemma go_back_n_nack_resends_captured_example:
  "reachable (three_frames GoBackN) \<and>
   protocol (ui (three_frames GoBackN)) = GoBackN \<and>
   senderWindow (ui (three_frames GoBackN)) = [0, 1, 2] \<and>
   timers (run_task (GoBackTimer (ui (three_frames GoBackN))) (three_frames GoBackN)) =
     [(3100, RetransmitTimer (ui (three_frames GoBackN)) 0),
      (3600, RetransmitTimer (ui (three_frames GoBackN)) 1),
      (4100, RetransmitTimer (ui (three_frames GoBackN)) 2)] \<and>
   map (\<lambda>p. (sequenceNumber p, status p, isRetransmission p))
     (packets (ui (run [Command (NegativeAcknowledge 1), Fire, Fire, Fire, Fire, Fire, Fire,
                        Fire, Fire] (three_frames GoBackN)))) =
     [(0, Received, None), (1, Lost, None), (2, Received, None),
      (0, Received, Some True), (1, Received, Some True), (2, Received, Some True)]"
proof -
  have r: "reachable (three_frames GoBackN)"
    unfolding three_frames_def by (rule reachable_run) (rule reachable_initial)
  have p: "protocol (ui (three_frames GoBackN)) = GoBackN"
    and ws: "senderWindow (ui (three_frames GoBackN)) = [0, 1, 2]"
    and t: "timers (three_frames GoBackN) = []" "now (three_frames GoBackN) = 3100"
    by (simp_all add: three_frames_def eval_defs)
  have m: "1 \<in> set (senderWindow (ui (three_frames GoBackN)))" by (simp add: ws)
  have e: "map (\<lambda>p. (sequenceNumber p, status p, isRetransmission p))
     (packets (ui (run [Command (NegativeAcknowledge 1), Fire, Fire, Fire, Fire, Fire, Fire,
                        Fire, Fire] (three_frames GoBackN)))) =
     [(0, Received, None), (1, Lost, None), (2, Received, None),
      (0, Received, Some True), (1, Received, Some True), (2, Received, Some True)]"
    by (simp add: three_frames_def eval_defs)
  from go_back_n_nack_resends_captured [OF r p m] r p ws t e
  show ?thesis by (simp add: enumerate_eq_zip)
qed

text \<open>
  Claim C6 (the code departs from it). The claim's resend set is the sender window at the
  time of the resend, after the delay. Two reachable runs in which the code resends
  something else.

  Window 0, 1, 2: NACK 1, then ACK 0 within the delay. When the go-back callback is due
  the window is 1, 2 and its base is 1, and frame 0 is \<open>Acknowledged\<close>; the callback
  schedules retransmissions of 0, 1 and 2, and a new frame numbered 0 is appended.

  Window 0, 1: NACK 0, then a send within the delay. When the go-back callback is due the
  window is 0, 1, 2 and its base is 0; the callback schedules retransmissions of 0 and 1
  only, and no frame numbered 2 is appended.
\<close>

theorem go_back_n_nack_ignores_live_window:
  "reachable (run (nack_then_ack @ [Fire]) (three_frames GoBackN)) \<and>
   protocol (ui (three_frames GoBackN)) = GoBackN \<and>
   senderWindow (ui (three_frames GoBackN)) = [0, 1, 2] \<and>
   senderWindow (ui (run nack_then_ack (three_frames GoBackN))) = [1, 2] \<and>
   map status (packets (ui (run nack_then_ack (three_frames GoBackN)))) =
     [Acknowledged, Lost, Received] \<and>
   timers (run nack_then_ack (three_frames GoBackN)) =
     [(4100, GoBackTimer (ui (three_frames GoBackN)))] \<and>
   math_min (senderWindow (ui (run nack_then_ack (three_frames GoBackN)))) = Finite 1 \<and>
   timers (run (nack_then_ack @ [Fire]) (three_frames GoBackN)) =
     [(4100, RetransmitTimer (ui (three_frames GoBackN)) 0),
      (4600, RetransmitTimer (ui (three_frames GoBackN)) 1),
      (5100, RetransmitTimer (ui (three_frames GoBackN)) 2)] \<and>
   senderWindow (ui (run (nack_then_ack @ [Fire]) (three_frames GoBackN))) = [1, 2] \<and>
   map (\<lambda>p. (sequenceNumber p, isRetransmission p))
     (packets (ui (run (nack_then_ack @ [Fire, Fire, Fire, Fire, Fire, Fire, Fire])
                    (three_frames GoBackN)))) =
     [(0, None), (1, None), (2, None), (0, Some True), (1, Some True), (2, Some True)] \<and>
   senderWindow (ui (run (nack_then_ack @ [Fire, Fire, Fire, Fire, Fire, Fire, Fire])
                      (three_frames GoBackN))) = [1, 2] \<and>
   timers (run (nack_then_ack @ [Fire, Fire, Fire, Fire, Fire, Fire, Fire])
             (three_frames GoBackN)) = [] \<and>
   reachable (run (nack_then_send @ [Fire]) two_frames) \<and>
   protocol (ui two_frames) = GoBackN \<and>
   senderWindow (ui two_frames) = [0, 1] \<and>
   senderWindow (ui (run nack_then_send two_frames)) = [0, 1, 2] \<and>
   timers (run nack_then_send two_frames) =
     [(3200, PacketArrives 2200), (3100, GoBackTimer (ui two_frames))] \<and>
   math_min (senderWindow (ui (run nack_then_send two_frames))) = Finite 0 \<and>
   timers (run (nack_then_send @ [Fire]) two_frames) =
     [(3200, PacketArrives 2200),
      (3100, RetransmitTimer (ui two_frames) 0),
      (3600, RetransmitTimer (ui two_frames) 1)] \<and>
   map (\<lambda>p. (sequenceNumber p, isRetransmission p))
     (packets (ui (run (nack_then_send @ [Fire, Fire, Fire, Fire, Fire, Fire]) two_frames))) =
     [(0, None), (1, None), (2, None), (0, Some True), (1, Some True)] \<and>
   senderWindow (ui (run (nack_then_send @ [Fire, Fire, Fire, Fire, Fire, Fire]) two_frames)) =
     [0, 1, 2] \<and>
   timers (run (nack_then_send @ [Fire, Fire, Fire, Fire, Fire, Fire]) two_frames) = []"
proof -
  have r: "reachable (run (nack_then_ack @ [Fire]) (three_frames GoBackN))"
    "reachable (run (nack_then_send @ [Fire]) two_frames)"
    unfolding three_frames_def two_frames_def
    by (intro reachable_run reachable_initial)+
  have c: "ui (three_frames GoBackN) =
      \<lparr>protocol = GoBackN,
       packets =
         [\<lparr>packet_id = 0, sequenceNumber = 0, data = ''Frame 0'', status = Received,
           timestamp = 0, isRetransmission = None\<rparr>,
          \<lparr>packet_id = 1000, sequenceNumber = 1, data = ''Frame 1'', status = Received,
           timestamp = 1000, isRetransmission = None\<rparr>,
          \<lparr>packet_id = 2000, sequenceNumber = 2, data = ''Frame 2'', status = Received,
           timestamp = 2000, isRetransmission = None\<rparr>],
       acks = [], isSimulating = False, windowSize = 3, nextSequenceNumber = 3,
       expectedSequenceNumber = 0, senderWindow = [0, 1, 2], receiverBuffer = [],
       waitingForAck = False, showDiagram = False\<rparr>"
    by (simp add: three_frames_def eval_defs)
  have c': "ui two_frames =
      \<lparr>protocol = GoBackN,
       packets =
         [\<lparr>packet_id = 0, sequenceNumber = 0, data = ''Frame 0'', status = Received,
           timestamp = 0, isRetransmission = None\<rparr>,
          \<lparr>packet_id = 1000, sequenceNumber = 1, data = ''Frame 1'', status = Received,
           timestamp = 1000, isRetransmission = None\<rparr>],
       acks = [], isSimulating = False, windowSize = 4, nextSequenceNumber = 2,
       expectedSequenceNumber = 0, senderWindow = [0, 1], receiverBuffer = [],
       waitingForAck = False, showDiagram = False\<rparr>"
    by (simp add: two_frames_def eval_defs)
  have a: "senderWindow (ui (run nack_then_ack (three_frames GoBackN))) = [1, 2]"
    "map status (packets (ui (run nack_then_ack (three_frames GoBackN)))) =
       [Acknowledged, Lost, Received]"
    "timers (run nack_then_ack (three_frames GoBackN)) =
       [(4100, GoBackTimer (ui (three_frames GoBackN)))]"
    "timers (run (nack_then_ack @ [Fire]) (three_frames GoBackN)) =
     [(4100, RetransmitTimer (ui (three_frames GoBackN)) 0),
      (4600, RetransmitTimer (ui (three_frames GoBackN)) 1),
      (5100, RetransmitTimer (ui (three_frames GoBackN)) 2)]"
    "senderWindow (ui (run (nack_then_ack @ [Fire]) (three_frames GoBackN))) = [1, 2]"
    "map (\<lambda>p. (sequenceNumber p, isRetransmission p))
     (packets (ui (run (nack_then_ack @ [Fire, Fire, Fire, Fire, Fire, Fire, Fire])
                    (three_frames GoBackN)))) =
     [(0, None), (1, None), (2, None), (0, Some True), (1, Some True), (2, Some True)]"
    "senderWindow (ui (run (nack_then_ack @ [Fire, Fire, Fire, Fire, Fire, Fire, Fire])
                      (three_frames GoBackN))) = [1, 2]"
    "timers (run (nack_then_ack @ [Fire, Fire, Fire, Fire, Fire, Fire, Fire])
             (three_frames GoBackN)) = []"
    unfolding c by (simp_all add: three_frames_def nack_then_ack_def eval_defs)
  have b: "senderWindow (ui (run nack_then_send two_frames)) = [0, 1, 2]"
    "timers (run nack_then_send two_frames) =
       [(3200, PacketArrives 2200), (3100, GoBackTimer (ui two_frames))]"
    "timers (run (nack_then_send @ [Fire]) two_frames) =
     [(3200, PacketArrives 2200),
      (3100, RetransmitTimer (ui two_frames) 0),
      (3600, RetransmitTimer (ui two_frames) 1)]"
    "map (\<lambda>p. (sequenceNumber p, isRetransmission p))
     (packets (ui (run (nack_then_send @ [Fire, Fire, Fire, Fire, Fire, Fire]) two_frames))) =
     [(0, None), (1, None), (2, None), (0, Some True), (1, Some True)]"
    "senderWindow (ui (run (nack_then_send @ [Fire, Fire, Fire, Fire, Fire, Fire]) two_frames)) =
     [0, 1, 2]"
    "timers (run (nack_then_send @ [Fire, Fire, Fire, Fire, Fire, Fire]) two_frames) = []"
    unfolding c' by (simp_all add: two_frames_def nack_then_send_def eval_defs)
  from r a b show ?thesis by (simp add: c c')
qed

section \<open>Acknowledgment under Go-Back-N\<close>

lemma find_received:
  "\<exists>p \<in> set ps. sequenceNumber p = s \<and> status p = Received \<Longrightarrow>
   \<exists>pkt. find (\<lambda>p. sequenceNumber p = s \<and> status p = Received) ps = Some pkt"
  by (cases "find (\<lambda>p. sequenceNumber p = s \<and> status p = Received) ps")
    (auto simp: find_None_iff)

text \<open>
  Claim C2 (the code departs from it). With the in-order acknowledgment the source filters
  the window by \<open>seq > expectedSequenceNumber - 1\<close> (line 183) on the expected number of the
  render that handled the click, which is still the old one although line 181 has queued
  the increment: the numbers below the old expected number leave the window, the
  acknowledged number itself stays until the delayed callback removes it. With window size
  1 and frame 0 \<open>Received\<close>, ACK 0 advances the expected number to 1 and leaves the window
  at 0, so that the send gate stays closed until the callback has fired 500 ms later. The
  out-of-order branch (line 186) does drop the acknowledged number at once: ACK 2 on the
  window 0, 1, 2 leaves 0, 1.
\<close>

theorem go_back_n_in_order_ack_keeps_number:
  "reachable full_window_world \<and>
   protocol (ui full_window_world) = GoBackN \<and>
   windowSize (ui full_window_world) = 1 \<and>
   packets (ui full_window_world) =
     [\<lparr>packet_id = 0, sequenceNumber = 0, data = ''Frame 0'', status = Received,
       timestamp = 0, isRetransmission = None\<rparr>] \<and>
   expectedSequenceNumber (ui full_window_world) = 0 \<and>
   senderWindow (ui full_window_world) = [0] \<and>
   expectedSequenceNumber (ui (perform (Acknowledge 0) full_window_world)) = 1 \<and>
   senderWindow (ui (perform (Acknowledge 0) full_window_world)) = [0] \<and>
   \<not> canSendPacket (ui (perform (Acknowledge 0) full_window_world)) \<and>
   senderWindow (ui (run [Command (Acknowledge 0), Fire] full_window_world)) = [] \<and>
   canSendPacket (ui (run [Command (Acknowledge 0), Fire] full_window_world)) \<and>
   expectedSequenceNumber (ui (three_frames GoBackN)) = 0 \<and>
   senderWindow (ui (three_frames GoBackN)) = [0, 1, 2] \<and>
   senderWindow (ui (perform (Acknowledge 2) (three_frames GoBackN))) = [0, 1] \<and>
   senderWindow (ui (perform (Acknowledge 0) (three_frames GoBackN))) = [0, 1, 2]"
proof -
  have r: "reachable full_window_world"
    unfolding full_window_world_def by (intro reachable_run reachable_initial)
  have e: "protocol (ui full_window_world) = GoBackN"
    "windowSize (ui full_window_world) = 1"
    "packets (ui full_window_world) =
     [\<lparr>packet_id = 0, sequenceNumber = 0, data = ''Frame 0'', status = Received,
       timestamp = 0, isRetransmission = None\<rparr>]"
    "expectedSequenceNumber (ui full_window_world) = 0"
    "senderWindow (ui full_window_world) = [0]"
    "expectedSequenceNumber (ui (perform (Acknowledge 0) full_window_world)) = 1"
    "senderWindow (ui (perform (Acknowledge 0) full_window_world)) = [0]"
    "\<not> canSendPacket (ui (perform (Acknowledge 0) full_window_world))"
    "senderWindow (ui (run [Command (Acknowledge 0), Fire] full_window_world)) = []"
    "canSendPacket (ui (run [Command (Acknowledge 0), Fire] full_window_world))"
    by (simp_all add: full_window_world_def eval_defs)
  have t: "expectedSequenceNumber (ui (three_frames GoBackN)) = 0"
    "senderWindow (ui (three_frames GoBackN)) = [0, 1, 2]"
    "senderWindow (ui (perform (Acknowledge 2) (three_frames GoBackN))) = [0, 1]"
    "senderWindow (ui (perform (Acknowledge 0) (three_frames GoBackN))) = [0, 1, 2]"
    by (simp_all add: three_frames_def eval_defs)
  from r e t show ?thesis by simp
qed

text \<open>
  In general, the in-order acknowledgment keeps every number of the window from the
  acknowledged one on.
\<close>

lemma go_back_n_in_order_ack_window:
  assumes "protocol (ui w) = GoBackN"
    and "\<exists>p \<in> set (packets (ui w)). sequenceNumber p = s \<and> status p = Received"
    and "s = expectedSequenceNumber (ui w)"
  shows "senderWindow (ui (perform (Acknowledge s) w)) =
      filter (\<lambda>q. s \<le> q) (senderWindow (ui w))"
proof -
  from assms(2) obtain pkt where
    f: "find (\<lambda>p. sequenceNumber p = s \<and> status p = Received) (packets (ui w)) = Some pkt"
    using find_received by blast
  have "filter (\<lambda>q. q > s - 1) xs = filter (\<lambda>q. s \<le> q) xs" for xs :: "int list"
    by (induction xs) auto
  with assms(1,3) f show ?thesis
    by (simp add: sendAck_def setter_defs Let_def)
qed

section \<open>Acknowledgment under Stop-and-Wait\<close>

text \<open>
  Claim C7, as amended. Under Stop-and-Wait, the acknowledge command for a number \<open>s\<close> that
  has a \<open>Received\<close> frame appends nothing to the acknowledgment log, and neither does its
  callback. If \<open>s\<close> is the expected number the outcome is ACK and the expected number
  advances by 1; otherwise the outcome is NACK and the expected number stays. After the
  delay, the callback of an ACK marks the frames numbered \<open>s\<close> \<open>Acknowledged\<close> and clears
  \<open>waitingForAck\<close>; the callback of a NACK changes nothing.
\<close>

theorem stop_and_wait_acknowledge:
  assumes "protocol (ui w) = StopAndWait"
    and "\<exists>p \<in> set (packets (ui w)). sequenceNumber p = s \<and> status p = Received"
  shows "acks (ui (perform (Acknowledge s) w)) = acks (ui w) \<and>
    packets (ui (perform (Acknowledge s) w)) = packets (ui w) \<and>
    waitingForAck (ui (perform (Acknowledge s) w)) = waitingForAck (ui w) \<and>
    (s = expectedSequenceNumber (ui w) \<longrightarrow>
       expectedSequenceNumber (ui (perform (Acknowledge s) w)) =
         expectedSequenceNumber (ui w) + 1 \<and>
       timers (perform (Acknowledge s) w) =
         timers w @ [(now w + 500, AckTimer (ui w) (now w) s ACK)]) \<and>
    (s \<noteq> expectedSequenceNumber (ui w) \<longrightarrow>
       expectedSequenceNumber (ui (perform (Acknowledge s) w)) = expectedSequenceNumber (ui w) \<and>
       timers (perform (Acknowledge s) w) =
         timers w @ [(now w + 500, AckTimer (ui w) (now w) s NACK)]) \<and>
    (\<forall>a w1.
       run_task (AckTimer (ui w) a s ACK) w1 =
         w1\<lparr>ui := (ui w1)\<lparr>packets :=
                 map (\<lambda>p. if sequenceNumber p = s then p\<lparr>status := Acknowledged\<rparr> else p)
                   (packets (ui w1)),
               waitingForAck := False\<rparr>\<rparr>) \<and>
    (\<forall>a w1. run_task (AckTimer (ui w) a s NACK) w1 = w1)"
proof -
  from assms(2) obtain pkt where
    f: "find (\<lambda>p. sequenceNumber p = s \<and> status p = Received) (packets (ui w)) = Some pkt"
    using find_received by blast
  have 1: "acks (ui (perform (Acknowledge s) w)) = acks (ui w) \<and>
    packets (ui (perform (Acknowledge s) w)) = packets (ui w) \<and>
    waitingForAck (ui (perform (Acknowledge s) w)) = waitingForAck (ui w)"
    using assms(1) f by (simp add: sendAck_def setter_defs Let_def)
  have 2: "expectedSequenceNumber (ui (perform (Acknowledge s) w)) =
         expectedSequenceNumber (ui w) + 1 \<and>
       timers (perform (Acknowledge s) w) =
         timers w @ [(now w + 500, AckTimer (ui w) (now w) s ACK)]"
    if "s = expectedSequenceNumber (ui w)"
    using assms(1) f that by (simp add: sendAck_def setter_defs Let_def)
  have 3: "expectedSequenceNumber (ui (perform (Acknowledge s) w)) = expectedSequenceNumber (ui w) \<and>
       timers (perform (Acknowledge s) w) =
         timers w @ [(now w + 500, AckTimer (ui w) (now w) s NACK)]"
    if "s \<noteq> expectedSequenceNumber (ui w)"
    using assms(1) f that by (simp add: sendAck_def setter_defs Let_def)
  have 4: "run_task (AckTimer (ui w) a s ACK) w1 =
         w1\<lparr>ui := (ui w1)\<lparr>packets :=
                 map (\<lambda>p. if sequenceNumber p = s then p\<lparr>status := Acknowledged\<rparr> else p)
                   (packets (ui w1)),
               waitingForAck := False\<rparr>\<rparr>" for a w1
    using assms(1) by (simp add: ackTimeout_def setter_defs Let_def)
  have 5: "run_task (AckTimer (ui w) a s NACK) w1 = w1" for a w1
    using assms(1) by (simp add: ackTimeout_def setter_defs Let_def)
  from 1 2 3 4 5 show ?thesis by blast
qed

theorem stop_and_wait_acknowledge_witness:
  "protocol (ui (one_frame StopAndWait)) = StopAndWait \<and>
   packets (ui (one_frame StopAndWait)) =
     [\<lparr>packet_id = 0, sequenceNumber = 0, data = ''Frame 0'', status = Received,
       timestamp = 0, isRetransmission = None\<rparr>] \<and>
   expectedSequenceNumber (ui (one_frame StopAndWait)) = 0 \<and>
   waitingForAck (ui (one_frame StopAndWait)) \<and>
   acks (ui (perform (Acknowledge 0) (one_frame StopAndWait))) = [] \<and>
   expectedSequenceNumber (ui (perform (Acknowledge 0) (one_frame StopAndWait))) = 1 \<and>
   ui (run [Command (Acknowledge 0), Fire] (one_frame StopAndWait)) =
     (ui (one_frame StopAndWait))
       \<lparr>packets := [\<lparr>packet_id = 0, sequenceNumber = 0, data = ''Frame 0'',
                     status = Acknowledged, timestamp = 0, isRetransmission = None\<rparr>],
        expectedSequenceNumber := 1, waitingForAck := False\<rparr> \<and>
   protocol (ui ahead_of_expected) = StopAndWait \<and>
   expectedSequenceNumber (ui ahead_of_expected) = 0 \<and>
   expectedSequenceNumber (ui (perform (Acknowledge 1) ahead_of_expected)) = 0 \<and>
   ui (run [Command (Acknowledge 1), Fire] ahead_of_expected) = ui ahead_of_expected"
proof -
  have p: "protocol (ui (one_frame StopAndWait)) = StopAndWait"
    and ps: "packets (ui (one_frame StopAndWait)) =
     [\<lparr>packet_id = 0, sequenceNumber = 0, data = ''Frame 0'', status = Received,
       timestamp = 0, isRetransmission = None\<rparr>]"
    and e: "expectedSequenceNumber (ui (one_frame StopAndWait)) = 0"
    and wa: "waitingForAck (ui (one_frame StopAndWait))"
      "acks (ui (one_frame StopAndWait)) = []"
    by (simp_all add: one_frame_def eval_defs)
  have r0: "\<exists>p \<in> set (packets (ui (one_frame StopAndWait))).
      sequenceNumber p = 0 \<and> status p = Received"
    by (simp add: ps)
  have p': "protocol (ui ahead_of_expected) = StopAndWait"
    and e': "expectedSequenceNumber (ui ahead_of_expected) = 0"
    and r1: "\<exists>p \<in> set (packets (ui ahead_of_expected)).
      sequenceNumber p = 1 \<and> status p = Received"
    by (simp_all add: ahead_of_expected_def eval_defs)
  have ev: "ui (run [Command (Acknowledge 0), Fire] (one_frame StopAndWait)) =
     (ui (one_frame StopAndWait))
       \<lparr>packets := [\<lparr>packet_id = 0, sequenceNumber = 0, data = ''Frame 0'',
                     status = Acknowledged, timestamp = 0, isRetransmission = None\<rparr>],
        expectedSequenceNumber := 1, waitingForAck := False\<rparr>"
    by (simp add: one_frame_def eval_defs)
  have ev': "ui (run [Command (Acknowledge 1), Fire] ahead_of_expected) = ui ahead_of_expected"
    by (simp add: ahead_of_expected_def eval_defs)
  from stop_and_wait_acknowledge [OF p r0] stop_and_wait_acknowledge [OF p' r1]
    p ps e wa p' e' ev ev'
  show ?thesis by simp
qed

theorem stop_and_wait_acknowledge_counterexample:
  "protocol (ui ahead_of_expected) = StopAndWait \<and>
   expectedSequenceNumber (ui ahead_of_expected) = 0 \<and>
   waitingForAck (ui ahead_of_expected) \<and>
   timers ahead_of_expected = [] \<and>
   packets (ui ahead_of_expected) =
     [\<lparr>packet_id = 0, sequenceNumber = 0, data = ''Frame 0'', status = Lost,
       timestamp = 0, isRetransmission = None\<rparr>,
      \<lparr>packet_id = 1600, sequenceNumber = 0, data = ''Frame 0'', status = Received,
       timestamp = 1600, isRetransmission = Some True\<rparr>,
      \<lparr>packet_id = 2700, sequenceNumber = 1, data = ''Frame 1'', status = Received,
       timestamp = 2700, isRetransmission = None\<rparr>] \<and>
   packets (ui (run [Command (Acknowledge 1), Fire] ahead_of_expected)) =
     packets (ui ahead_of_expected) \<and>
   waitingForAck (ui (run [Command (Acknowledge 1), Fire] ahead_of_expected)) \<and>
   timers (run [Command (Acknowledge 1), Fire] ahead_of_expected) = []"
  by (simp add: ahead_of_expected_def eval_defs)

section \<open>Where the code departs from the specification\<close>

text \<open>
  Claim C1 (the code departs from it). Under Selective-Repeat, with frames 0, 1 and 2
  \<open>Received\<close>, the expected number 0 and an empty reorder buffer, the acknowledgments 2, 1, 0
  in this order leave the expected number at 2 and frame 2 in the reorder buffer, also after
  all timers have fired: the single pass of \<open>filter\<close> meets frame 2 before frame 1. The
  acknowledgments 1, 2, 0 leave the expected number 3 and the buffer empty.
\<close>

theorem selective_repeat_reverse_acks:
  "protocol (ui (three_frames SelectiveRepeat)) = SelectiveRepeat \<and>
   expectedSequenceNumber (ui (three_frames SelectiveRepeat)) = 0 \<and>
   receiverBuffer (ui (three_frames SelectiveRepeat)) = [] \<and>
   map sequenceNumber (packets (ui (three_frames SelectiveRepeat))) = [0, 1, 2] \<and>
   map status (packets (ui (three_frames SelectiveRepeat))) = [Received, Received, Received] \<and>
   expectedSequenceNumber (ui (run reverse_acks (three_frames SelectiveRepeat))) = 2 \<and>
   map sequenceNumber (receiverBuffer (ui (run reverse_acks (three_frames SelectiveRepeat)))) =
     [2] \<and>
   expectedSequenceNumber
     (ui (run (reverse_acks @ [Fire, Fire, Fire]) (three_frames SelectiveRepeat))) = 2 \<and>
   map sequenceNumber (receiverBuffer
     (ui (run (reverse_acks @ [Fire, Fire, Fire]) (three_frames SelectiveRepeat)))) = [2] \<and>
   timers (run (reverse_acks @ [Fire, Fire, Fire]) (three_frames SelectiveRepeat)) = [] \<and>
   expectedSequenceNumber
     (ui (run [Command (Acknowledge 1), Tick 100, Command (Acknowledge 2), Tick 100,
               Command (Acknowledge 0)] (three_frames SelectiveRepeat))) = 3 \<and>
   receiverBuffer
     (ui (run [Command (Acknowledge 1), Tick 100, Command (Acknowledge 2), Tick 100,
               Command (Acknowledge 0)] (three_frames SelectiveRepeat))) = []"
  by (simp add: three_frames_def reverse_acks_def eval_defs)

text \<open>
  Claim C3 (the code departs from it). Two reachable Selective-Repeat states whose reorder
  buffer holds a frame numbered at most the expected number: after the acknowledgments 2,
  1, 0 the buffer holds frame 2 and 2 is expected; after frame 0 is acknowledged twice
  within the 500 ms in which it is still \<open>Received\<close>, the buffer holds frame 0 and 1 is
  expected.
\<close>

theorem reorder_buffer_not_above_expected:
  "reachable (run reverse_acks (three_frames SelectiveRepeat)) \<and>
   protocol (ui (run reverse_acks (three_frames SelectiveRepeat))) = SelectiveRepeat \<and>
   expectedSequenceNumber (ui (run reverse_acks (three_frames SelectiveRepeat))) = 2 \<and>
   map sequenceNumber (receiverBuffer (ui (run reverse_acks (three_frames SelectiveRepeat)))) =
     [2] \<and>
   (\<exists>p \<in> set (receiverBuffer (ui (run reverse_acks (three_frames SelectiveRepeat)))).
      sequenceNumber p \<le>
        expectedSequenceNumber (ui (run reverse_acks (three_frames SelectiveRepeat)))) \<and>
   reachable (run [Command (Acknowledge 0), Tick 100, Command (Acknowledge 0)]
                (one_frame SelectiveRepeat)) \<and>
   expectedSequenceNumber
     (ui (run [Command (Acknowledge 0), Tick 100, Command (Acknowledge 0)]
           (one_frame SelectiveRepeat))) = 1 \<and>
   map sequenceNumber (receiverBuffer
     (ui (run [Command (Acknowledge 0), Tick 100, Command (Acknowledge 0)]
           (one_frame SelectiveRepeat)))) = [0]"
proof -
  have r: "reachable (run reverse_acks (three_frames SelectiveRepeat))"
    "reachable (run [Command (Acknowledge 0), Tick 100, Command (Acknowledge 0)]
                (one_frame SelectiveRepeat))"
    unfolding three_frames_def one_frame_def
    by (intro reachable_run reachable_initial)+
  have e: "protocol (ui (run reverse_acks (three_frames SelectiveRepeat))) = SelectiveRepeat"
    "expectedSequenceNumber (ui (run reverse_acks (three_frames SelectiveRepeat))) = 2"
    "map sequenceNumber (receiverBuffer (ui (run reverse_acks (three_frames SelectiveRepeat)))) =
     [2]"
    by (simp_all add: three_frames_def reverse_acks_def eval_defs)
  have e': "expectedSequenceNumber
     (ui (run [Command (Acknowledge 0), Tick 100, Command (Acknowledge 0)]
           (one_frame SelectiveRepeat))) = 1"
    "map sequenceNumber (receiverBuffer
     (ui (run [Command (Acknowledge 0), Tick 100, Command (Acknowledge 0)]
           (one_frame SelectiveRepeat)))) = [0]"
    by (simp_all add: one_frame_def eval_defs)
  have b: "\<exists>p \<in> set (receiverBuffer (ui (run reverse_acks (three_frames SelectiveRepeat)))).
      sequenceNumber p \<le>
        expectedSequenceNumber (ui (run reverse_acks (three_frames SelectiveRepeat)))"
    by (simp add: three_frames_def reverse_acks_def eval_defs)
  from r e e' b show ?thesis by simp
qed

text \<open>
  Claim C4 (the code departs from it). The statistic guards \<open>packets.length > 0\<close>, not the
  divisor. After send, arrival, NACK, reset and the firing of the NACK's callback, the
  registry holds one frame, a retransmission: the divisor is 0 and the statistic is
  \<open>0 / 0\<close>, that is \<open>NaN\<close>, not 0. Once that frame has arrived and has been acknowledged
  the statistic is \<open>1 / 0\<close>, that is \<open>Infinity\<close>.
\<close>

theorem success_rate_with_only_retransmissions:
  "reachable nack_then_reset \<and>
   packets (ui nack_then_reset) =
     [\<lparr>packet_id = 1600, sequenceNumber = 0, data = ''Frame 0'', status = Retransmitting,
       timestamp = 1600, isRetransmission = Some True\<rparr>] \<and>
   length (filter (\<lambda>p. \<not> truthy (isRetransmission p)) (packets (ui nack_then_reset))) = 0 \<and>
   successRate (ui nack_then_reset) = NaN \<and>
   successRate (ui nack_then_reset) \<noteq> Number 0 \<and>
   successRate (ui (run [Fire, Tick 100, Command (Acknowledge 0), Fire] nack_then_reset)) =
     PosInfinity"
proof -
  have r: "reachable nack_then_reset"
    unfolding nack_then_reset_def by (intro reachable_run reachable_initial)
  have e: "packets (ui nack_then_reset) =
     [\<lparr>packet_id = 1600, sequenceNumber = 0, data = ''Frame 0'', status = Retransmitting,
       timestamp = 1600, isRetransmission = Some True\<rparr>]"
    by (simp add: nack_then_reset_def eval_defs)
  have i: "successRate (ui (run [Fire, Tick 100, Command (Acknowledge 0), Fire] nack_then_reset)) =
     PosInfinity"
    by (simp add: nack_then_reset_def eval_defs successRate_def js_divide_def truthy_def)
  from r e i show ?thesis
    by (simp add: successRate_def js_divide_def truthy_def)
qed

lemma successRate_empty: "packets c = [] \<Longrightarrow> successRate c = Number 0"
  by (simp add: successRate_def)

lemma successRate_zero_divisor:
  assumes "packets c \<noteq> []" and "\<forall>p \<in> set (packets c). truthy (isRetransmission p)"
  shows "successRate c = NaN \<or> successRate c = PosInfinity"
proof -
  from assms(2) have "filter (\<lambda>p. \<not> truthy (isRetransmission p)) (packets c) = []"
    by (simp add: filter_empty_conv)
  with assms(1) show ?thesis by (simp add: successRate_def js_divide_def)
qed

text \<open>
  The statistic is computed on doubles: 29 acknowledged of 200 is shown as 14 per cent,
  since \<open>29 / 200 * 100\<close> is \<open>14.499999999999998\<close>.
\<close>

lemma double_rounding_example: "math_round (js_times_100 (js_divide 29 200)) = Number 14"
  by code_simp

section \<open>The drain pass on an ordered buffer\<close>

text \<open>
  What the single pass does achieve: on a buffer in strictly ascending order whose numbers
  are all at least \<open>n\<close>, it leaves only numbers above the final \<open>nextExpected\<close>.
\<close>

lemma filter_buffer_all_above:
  "\<forall>p \<in> set ps. n < sequenceNumber p \<Longrightarrow> filter_buffer n ps = (n, ps)"
  by (induction ps) auto

lemma filter_buffer_ascending:
  "sorted_wrt (<) (map sequenceNumber ps) \<Longrightarrow> \<forall>p \<in> set ps. n \<le> sequenceNumber p \<Longrightarrow>
   \<forall>p \<in> set (snd (filter_buffer n ps)). fst (filter_buffer n ps) < sequenceNumber p"
proof (induction ps arbitrary: n)
  case Nil
  then show ?case by simp
next
  case (Cons p ps)
  show ?case
  proof (cases "sequenceNumber p = n")
    case True
    with Cons.prems have "\<forall>q \<in> set ps. n + 1 \<le> sequenceNumber q" by auto
    with Cons.IH [of "n + 1"] Cons.prems(1) True show ?thesis by simp
  next
    case False
    with Cons.prems have "\<forall>q \<in> set ps. n < sequenceNumber q" "n < sequenceNumber p"
      by (auto simp: less_le)
    then show ?thesis using False by (simp add: filter_buffer_all_above)
  qed
qed

end
